theory Spec2Isabelle
  imports Complex_Main
begin

section \<open>Records of the BER dataset\<close>

text \<open>
  The cleaning script works on pandas rows: a \<^verbatim>\<open>pd.Series\<close> whose index holds the column
  names of the CSV file and whose values are the cells. A row is modelled as an association
  list in column order. A cell is a number or a string; numbers are real numbers (the
  float64 and int64 cells of pandas, without rounding, NaN or infinities).
\<close>

datatype val = Num real | Str string

datatype error =
    KeyError string
  | TypeError
  | ZeroDivisionError
  | ValueError
  | FileAccessError
  | FileNotFoundError
  | EmptyDataError

type_synonym 'a result = "error + 'a"

type_synonym row = "(string \<times> val) list"

definition bnd :: "'a result \<Rightarrow> ('a \<Rightarrow> 'b result) \<Rightarrow> 'b result" where
  "bnd m f = (case m of Inl e \<Rightarrow> Inl e | Inr x \<Rightarrow> f x)"

text \<open>\<^verbatim>\<open>data_row[k]\<close>: the cell under label \<open>k\<close>, KeyError when no column has that name.\<close>

definition getitem :: "row \<Rightarrow> string \<Rightarrow> val result" where
  "getitem data_row k = (case map_of data_row k of None \<Rightarrow> Inl (KeyError k) | Some v \<Rightarrow> Inr v)"

text \<open>An ordering comparison (\<^verbatim>\<open><\<close>, \<^verbatim>\<open><=\<close>, \<^verbatim>\<open>>\<close>) of a cell with a number raises
  TypeError on a string cell.\<close>

definition as_num :: "val \<Rightarrow> real result" where
  "as_num v = (case v of Num x \<Rightarrow> Inr x | Str s \<Rightarrow> Inl TypeError)"

definition get_num :: "row \<Rightarrow> string \<Rightarrow> real result" where
  "get_num data_row k = bnd (getitem data_row k) as_num"

text \<open>\<^verbatim>\<open>data_row[k] = v\<close>: overwrites the cell in place, or appends a new column at the end.\<close>

fun setitem :: "string \<Rightarrow> val \<Rightarrow> row \<Rightarrow> row" where
  "setitem k v [] = [(k, v)]"
| "setitem k v (p # ps) = (if fst p = k then (k, v) # ps else p # setitem k v ps)"

text \<open>\<^verbatim>\<open>key in data_row\<close> on a Series tests the index labels, not the values.\<close>

definition contains :: "row \<Rightarrow> string \<Rightarrow> bool" where
  "contains data_row k = (k \<in> set (map fst data_row))"

definition startswith :: "string \<Rightarrow> string \<Rightarrow> bool" where
  "startswith s p = (take (length p) s = p)"

definition endswith :: "string \<Rightarrow> string \<Rightarrow> bool" where
  "endswith s p = (length p \<le> length s \<and> drop (length s - length p) s = p)"

text \<open>Python arithmetic on cells: \<^verbatim>\<open>+\<close> adds numbers and concatenates strings,
  \<^verbatim>\<open>*\<close> and \<^verbatim>\<open>/\<close> need two numbers (a float times a string is a TypeError), and
  division by zero is an error of its own.\<close>

fun py_add :: "val \<Rightarrow> val \<Rightarrow> val result" where
  "py_add (Num a) (Num b) = Inr (Num (a + b))"
| "py_add (Str a) (Str b) = Inr (Str (a @ b))"
| "py_add _ _ = Inl TypeError"

fun py_mul :: "val \<Rightarrow> val \<Rightarrow> val result" where
  "py_mul (Num a) (Num b) = Inr (Num (a * b))"
| "py_mul _ _ = Inl TypeError"

fun py_truediv :: "val \<Rightarrow> val \<Rightarrow> val result" where
  "py_truediv (Num a) (Num b) = (if b = 0 then Inl ZeroDivisionError else Inr (Num (a / b)))"
| "py_truediv _ _ = Inl TypeError"

section \<open>Derived columns (\<^verbatim>\<open>add_desired_columns\<close>)\<close>

datatype bound = NegInf | Fin real | PosInf

fun gt_bound :: "real \<Rightarrow> bound \<Rightarrow> bool" where
  "gt_bound y NegInf = True"
| "gt_bound y (Fin b) = (y > b)"
| "gt_bound y PosInf = False"

fun le_bound :: "real \<Rightarrow> bound \<Rightarrow> bool" where
  "le_bound y NegInf = False"
| "le_bound y (Fin b) = (y \<le> b)"
| "le_bound y PosInf = True"

definition bins :: "bound list" where
  "bins = [NegInf, Fin 1899, Fin 1929, Fin 1949, Fin 1966, Fin 1977, Fin 1982, Fin 1993,
           Fin 1999, Fin 2004, Fin 2009, PosInf]"

definition construction_period :: "string list" where
  "construction_period = [''A'', ''B'', ''C'', ''D'', ''E'', ''F'', ''G'', ''H'', ''I'', ''J'', ''K'']"

text \<open>The condition of the loop body: \<^verbatim>\<open>year > bins[i] and year <= bins[i+1]\<close>.\<close>

definition in_bin :: "real \<Rightarrow> nat \<Rightarrow> bool" where
  "in_bin y i = (gt_bound y (bins ! i) \<and> le_bound y (bins ! (i + 1)))"

text \<open>The loop over \<^verbatim>\<open>range(len(bins)-1)\<close>: every iteration reads the year and, when it
  lies in \<open>(bins[i], bins[i+1]]\<close>, stores the band; a later match would overwrite an
  earlier one.\<close>

fun age_band_loop :: "nat list \<Rightarrow> row \<Rightarrow> row result" where
  "age_band_loop [] data_row = Inr data_row"
| "age_band_loop (i # rest) data_row =
     (case get_num data_row ''Year_of_Construction'' of
        Inl e \<Rightarrow> Inl e
      | Inr y \<Rightarrow>
          age_band_loop rest
            (if in_bin y i
             then setitem ''AgeBand'' (Str (construction_period ! i)) data_row
             else data_row))"

definition thermal_era :: "row \<Rightarrow> val result" where
  "thermal_era data_row =
     bnd (get_num data_row ''Year_of_Construction'')
       (\<lambda>y. Inr (Str (if y \<le> 1977 then ''Pre'' else ''Post'')))"

text \<open>\<^verbatim>\<open>(WindowArea / WallArea) if (WallArea > 0) else 0\<close>: the condition is evaluated
  first, the quotient only when it holds.\<close>

definition glazing_percent :: "row \<Rightarrow> val result" where
  "glazing_percent data_row =
     bnd (get_num data_row ''WallArea'')
       (\<lambda>w. if w > 0
             then bnd (getitem data_row ''WindowArea'')
                    (\<lambda>win. bnd (getitem data_row ''WallArea'') (\<lambda>wall. py_truediv win wall))
             else Inr (Num 0))"

definition volume :: "row \<Rightarrow> val result" where
  "volume data_row =
     bnd (getitem data_row ''GroundFloorArea(sq m)'') (\<lambda>a.
     bnd (getitem data_row ''GroundFloorHeight'') (\<lambda>h0.
     bnd (getitem data_row ''FirstFloorHeight'') (\<lambda>h1.
     bnd (py_add h0 h1) (\<lambda>s1.
     bnd (getitem data_row ''SecondFloorHeight'') (\<lambda>h2.
     bnd (py_add s1 h2) (\<lambda>s2.
     bnd (getitem data_row ''ThirdFloorHeight'') (\<lambda>h3.
     bnd (py_add s2 h3) (\<lambda>s3.
     py_mul a s3))))))))"

definition add_desired_columns :: "row \<Rightarrow> row result" where
  "add_desired_columns data_row =
     bnd (age_band_loop [0 ..< length bins - 1] data_row) (\<lambda>r1.
     bnd (thermal_era r1) (\<lambda>era.
     bnd (glazing_percent (setitem ''ThermalEra'' era r1)) (\<lambda>g.
     bnd (volume (setitem ''GlazingPercent'' g (setitem ''ThermalEra'' era r1))) (\<lambda>v.
     Inr (setitem ''Volume'' v
            (setitem ''GlazingPercent'' g (setitem ''ThermalEra'' era r1)))))))"

section \<open>Dropped columns (\<^verbatim>\<open>drop_unwanted_columns\<close>)\<close>

definition columns_to_drop :: "row \<Rightarrow> string list" where
  "columns_to_drop data_row =
     [''FirstWallDescription'', ''SecondWallDescription'', ''ThirdWallDescription'']
     @ filter (\<lambda>col. startswith col ''Unnamed:'') (map fst data_row)"

definition drop_unwanted_columns :: "row \<Rightarrow> row" where
  "drop_unwanted_columns data_row =
     filter (\<lambda>p. fst p \<notin> set (columns_to_drop data_row)) data_row"

section \<open>Storey count (\<^verbatim>\<open>correct_column_data\<close>)\<close>

text \<open>The list comprehension \<^verbatim>\<open>[1 for height in [...] if data_row[height] > 0]\<close>, summed.\<close>

fun count_positive :: "row \<Rightarrow> string list \<Rightarrow> nat result" where
  "count_positive data_row [] = Inr 0"
| "count_positive data_row (height # rest) =
     (case get_num data_row height of
        Inl e \<Rightarrow> Inl e
      | Inr h \<Rightarrow>
          (case count_positive data_row rest of
             Inl e \<Rightarrow> Inl e
           | Inr n \<Rightarrow> Inr ((if h > 0 then 1 else 0) + n)))"

definition correct_column_data :: "row \<Rightarrow> row result" where
  "correct_column_data data_row =
     bnd (get_num data_row ''NoStoreys'') (\<lambda>n.
       if n < 4
       then bnd (count_positive data_row
                   [''FirstFloorHeight'', ''SecondFloorHeight'', ''ThirdFloorHeight''])
              (\<lambda>c. Inr (setitem ''NoStoreys'' (Num (1 + real c)) data_row))
       else Inr data_row)"

section \<open>Default replacement (\<^verbatim>\<open>find_and_replace\<close>)\<close>

text \<open>One statement \<^verbatim>\<open>if (data_row['UValueWall'] == c) and
  (data_row['FirstWallType_Description'] == d): data_row['UValueWall'] = v\<close>. The
  description is read only when the U-value matched; \<^verbatim>\<open>==\<close> between a string and a
  number is False.\<close>

definition wall_if :: "real \<Rightarrow> string \<Rightarrow> real \<Rightarrow> row \<Rightarrow> row result" where
  "wall_if c d v data_row =
     bnd (getitem data_row ''UValueWall'') (\<lambda>w.
       if w = Num c
       then bnd (getitem data_row ''FirstWallType_Description'') (\<lambda>t.
              Inr (if t = Str d then setitem ''UValueWall'' (Num v) data_row else data_row))
       else Inr data_row)"

definition roof_if :: "real \<Rightarrow> real \<Rightarrow> row \<Rightarrow> row result" where
  "roof_if c v data_row =
     bnd (getitem data_row ''UValueRoof'') (\<lambda>r.
       Inr (if r = Num c then setitem ''UValueRoof'' (Num v) data_row else data_row))"

text \<open>The statements of one \<^verbatim>\<open>case\<close> block, run in order on the row as it stands.\<close>

fun run_block :: "(row \<Rightarrow> row result) list \<Rightarrow> row \<Rightarrow> row result" where
  "run_block [] data_row = Inr data_row"
| "run_block (stmt # rest) data_row =
     (case stmt data_row of Inl e \<Rightarrow> Inl e | Inr r \<Rightarrow> run_block rest r)"

definition age_band_block :: "string \<Rightarrow> (row \<Rightarrow> row result) list" where
  "age_band_block band =
    (if band = ''A'' then
       [wall_if 2.10 ''Unknown'' 2.69,
        wall_if 2.10 ''Stone'' 2.90,
        wall_if 1.64 ''325mm Solid Brick'' 1.55,
        roof_if 2.30 0.71]
     else if band = ''B'' then
       [wall_if 2.10 ''Unknown'' 1.75,
        wall_if 2.10 ''Stone'' 3.28,
        wall_if 2.10 ''225mm Solid brick'' 1.75,
        wall_if 1.64 ''325mm Solid Brick'' 1.55,
        roof_if 2.30 0.71]
     else if band = ''C'' then
       [wall_if 2.10 ''Unknown'' 2.12,
        wall_if 2.10 ''225mm Solid brick'' 1.75,
        wall_if 1.78 ''300mm Cavity'' 1.20,
        wall_if 2.20 ''Solid Mass Concrete'' 2.12,
        roof_if 2.30 0.71]
     else if band = ''D'' then
       [wall_if 2.10 ''Unknown'' 2.69,
        wall_if 1.78 ''300mm Cavity'' 1.85,
        wall_if 2.20 ''Solid Mass Concrete'' 2.12,
        wall_if 2.40 ''Concrete Hollow Block'' 2.69,
        roof_if 2.30 0.71]
     else if band = ''E'' then
       [wall_if 2.10 ''Unknown'' 2.14,
        wall_if 1.78 ''300mm Cavity'' 1.54,
        wall_if 2.40 ''Concrete Hollow Block'' 2.14,
        roof_if 2.30 0.71]
     else if band = ''F'' then
       [wall_if 1.10 ''Unknown'' 1.83,
        wall_if 1.10 ''300mm Cavity'' 1.43,
        wall_if 0.60 ''300mm Filled Cavity'' 0.54,
        wall_if 1.10 ''Concrete Hollow Block'' 1.83,
        roof_if 0.49 0.43]
     else if band = ''G'' then
       [wall_if 0.60 ''Unknown'' 1.35,
        wall_if 0.60 ''300mm Cavity'' 1.35,
        wall_if 0.60 ''300mm Filled Cavity'' 0.54,
        wall_if 0.60 ''Concrete Hollow Block'' 1.72,
        roof_if 0.49 0.43]
     else if band = ''H'' then
       [wall_if 0.55 ''Unknown'' 0.39,
        wall_if 0.55 ''300mm Filled Cavity'' 0.39,
        wall_if 0.55 ''Concrete Hollow Block'' 0.54,
        wall_if 0.55 ''Timber Frame'' 0.40,
        roof_if 0.40 0.28]
     else if band = ''I'' then
       [wall_if 0.55 ''Unknown'' 0.28,
        wall_if 0.55 ''300mm Filled Cavity'' 0.29,
        wall_if 0.55 ''Timber Frame'' 0.35,
        roof_if 0.36 0.28]
     else if band = ''J'' then
       [wall_if 0.37 ''Unknown'' 0.27,
        wall_if 0.37 ''300mm Filled Cavity'' 0.27,
        wall_if 0.37 ''Timber Frame'' 0.30,
        roof_if 0.25 0.21]
     else if band = ''K'' then
       [wall_if 0.27 ''Unknown'' 0.27,
        wall_if 0.27 ''300mm Filled Cavity'' 0.21,
        wall_if 0.27 ''Timber Frame'' 0.27,
        roof_if 0.25 0.21]
     else [])"

text \<open>\<^verbatim>\<open>match data_row['AgeBand']\<close>: a cell that is no string, or a string that is no
  band letter, matches no case and the row is returned as it is.\<close>

definition find_and_replace :: "row \<Rightarrow> row result" where
  "find_and_replace data_row =
     bnd (getitem data_row ''AgeBand'') (\<lambda>b.
       case b of
         Str band \<Rightarrow> run_block (age_band_block band) data_row
       | Num x \<Rightarrow> Inr data_row)"

section \<open>The cleaning methodology\<close>

definition cleaning_methodology :: "row \<Rightarrow> row result" where
  "cleaning_methodology data_row =
     bnd (add_desired_columns (drop_unwanted_columns data_row)) (\<lambda>r1.
     bnd (correct_column_data r1) find_and_replace)"

section \<open>Exclusion criteria (\<^verbatim>\<open>filter_by_criteria\<close>)\<close>

text \<open>
  The function starts with \<^verbatim>\<open>exclude_row = False\<close> and every clause can only set it to
  True, so the value returned is the disjunction of the clauses that fire. Each clause is a
  function that says whether it fires; they are evaluated in the order of the source, so
  that the first missing or ill-typed cell decides the error. The current year
  (\<^verbatim>\<open>datetime.now().year\<close>) is the parameter \<open>now\<close>.
\<close>

definition clause_1 :: "real \<Rightarrow> row \<Rightarrow> bool result" where
  "clause_1 now data_row =
     bnd (get_num data_row ''Year_of_Construction'') (\<lambda>y. Inr (y > now))"

definition clause_2 :: "row \<Rightarrow> bool result" where
  "clause_2 data_row =
     bnd (get_num data_row ''GroundFloorHeight'') (\<lambda>h.
       Inr (\<not> ((2.30 \<le> h \<and> h \<le> 3.46) \<or> h = 0)))"

definition clause_3 :: "row \<Rightarrow> bool result" where
  "clause_3 data_row =
     Inr (\<not> list_ex (\<lambda>allowed_substring. contains data_row allowed_substring)
                  [''Final'', ''Existing'', ''Provisional''])"

definition clause_4 :: "row \<Rightarrow> bool result" where
  "clause_4 data_row =
     bnd (get_num data_row ''HSMainSystemEfficiency'') (\<lambda>x.
       Inr (\<not> (x = 0 \<or> (23.07 \<le> x \<and> x \<le> 95.90) \<or> (100 \<le> x \<and> x \<le> 635.34))))"

definition clause_5 :: "row \<Rightarrow> bool result" where
  "clause_5 data_row =
     bnd (get_num data_row ''WHMainSystemEff'') (\<lambda>x.
       Inr (\<not> (x = 0 \<or> (24 \<le> x \<and> x \<le> 95.90) \<or> (100 \<le> x \<and> x \<le> 389.9))))"

text \<open>A range check of a \<^verbatim>\<open>case\<close> block: \<^verbatim>\<open>if not (lo <= data_row[k] <= hi)\<close>, or with
  \<^verbatim>\<open>lo < data_row[k]\<close> where the source writes it so.\<close>

datatype lower = Incl real | Excl real

fun above :: "lower \<Rightarrow> real \<Rightarrow> bool" where
  "above (Incl lo) x = (lo \<le> x)"
| "above (Excl lo) x = (lo < x)"

type_synonym range_check = "lower \<times> string \<times> real"

fun range_fails :: "row \<Rightarrow> range_check \<Rightarrow> bool result" where
  "range_fails data_row (lo, k, hi) =
     bnd (get_num data_row k) (\<lambda>x. Inr (\<not> (above lo x \<and> x \<le> hi)))"

fun any_range_fails :: "row \<Rightarrow> range_check list \<Rightarrow> bool result" where
  "any_range_fails data_row [] = Inr False"
| "any_range_fails data_row (c # rest) =
     (case range_fails data_row c of
        Inl e \<Rightarrow> Inl e
      | Inr b \<Rightarrow>
          (case any_range_fails data_row rest of
             Inl e \<Rightarrow> Inl e
           | Inr b' \<Rightarrow> Inr (b \<or> b')))"


text \<open>Clauses 6 to 16: the \<^verbatim>\<open>case\<close> blocks of \<^verbatim>\<open>match data_row['DwellingTypeDescr']\<close>, in
  the order and with the literals of the source.\<close>

definition dwelling_cases :: "(string \<times> range_check list) list" where
  "dwelling_cases =
    [(''Semi-detached house'',
        [(Incl 11.27, ''LivingAreaPercent'', 35.16),
         (Incl 53.19, ''WallArea'', 147.96),
         (Incl 31.13, ''FloorArea'', 119.09),
         (Incl 48.75, ''GroundFloorArea(sq m)'', 186.83),
         (Incl 32.34, ''RoofArea'', 127.39),
         (Incl 7.09, ''WindowArea'', 41.99),
         (Excl 0, ''DoorArea'', 5.86)]),
     (''End of terrace house'',
        [(Incl 12.96, ''LivingAreaPercent'', 59.49),
         (Incl 56.62, ''WallArea'', 155.61),
         (Incl 29.97, ''FloorArea'', 104.74),
         (Incl 58.68, ''GroundFloorArea(sq m)'', 190.49),
         (Incl 29.99, ''RoofArea'', 108.82),
         (Incl 5.66, ''WindowArea'', 34.82),
         (Incl 1.54, ''DoorArea'', 17.97)]),
     (''Detached house'',
        [(Incl 7.54, ''LivingAreaPercent'', 45.89),
         (Incl 31.68, ''WallArea'', 336.19),
         (Incl 28.87, ''FloorArea'', 255.60),
         (Incl 52.24, ''GroundFloorArea(sq m)'', 422.20),
         (Incl 30.08, ''RoofArea'', 290.85),
         (Incl 5.61, ''WindowArea'', 83.48),
         (Excl 0, ''DoorArea'', 6.28)]),
     (''Top-floor apartment'',
        [(Incl (-0.23), ''LivingAreaPercent'', 62.28),
         (Incl 4.63, ''WallArea'', 139.35),
         (Incl 0, ''FloorArea'', 0),
         (Incl 18.29, ''GroundFloorArea(sq m)'', 153.06),
         (Incl 12.16, ''RoofArea'', 126.58),
         (Incl 2.02, ''WindowArea'', 38.71),
         (Excl 0, ''DoorArea'', 1.91)]),
     (''Mid-terrace house'',
        [(Incl 13.03, ''LivingAreaPercent'', 72.13),
         (Incl 29.24, ''WallArea'', 163.64),
         (Incl 31.65, ''FloorArea'', 101.19),
         (Incl 61.13, ''GroundFloorArea(sq m)'', 189.89),
         (Incl 32.54, ''RoofArea'', 110.68),
         (Incl 4.29, ''WindowArea'', 29.02),
         (Incl 1.61, ''DoorArea'', 21.04)]),
     (''Maisonette'',
        [(Incl 6.39, ''LivingAreaPercent'', 78.28),
         (Incl 20.88, ''WallArea'', 255.43),
         (Incl (-3.65), ''FloorArea'', 841.0),
         (Incl 12.82, ''GroundFloorArea(sq m)'', 182.30),
         (Incl (-121.43), ''RoofArea'', 84.78),
         (Incl 1.83, ''WindowArea'', 35.75),
         (Incl 1.83, ''DoorArea'', 6.21)]),
     (''House'',
        [(Incl 6.61, ''LivingAreaPercent'', 39.73),
         (Incl 57.96, ''WallArea'', 392.64),
         (Incl (-8.56), ''FloorArea'', 248.01),
         (Incl 53.63, ''GroundFloorArea(sq m)'', 453.75),
         (Incl (-4.44), ''RoofArea'', 284.29),
         (Incl 5.44, ''WindowArea'', 78.07),
         (Excl 0, ''DoorArea'', 4.73)]),
     (''Apartment'',
        [(Incl 43.39, ''LivingAreaPercent'', 57.59),
         (Incl 0.03, ''WallArea'', 135.15),
         (Incl (-1.41), ''FloorArea'', 1596.88),
         (Incl 14.73, ''GroundFloorArea(sq m)'', 143.84),
         (Incl (-4.74), ''RoofArea'', 725.23),
         (Incl 1.72, ''WindowArea'', 47.62),
         (Incl 1.78, ''DoorArea'', 2.02)]),
     (''Ground-floor apartment'',
        [(Incl 3.72, ''LivingAreaPercent'', 64.30),
         (Incl (-5.79), ''WallArea'', 113.86),
         (Incl 2.23, ''FloorArea'', 107.71),
         (Incl 14.74, ''GroundFloorArea(sq m)'', 125.67),
         (Incl (-0.19), ''RoofArea'', 214.01),
         (Incl 2.96, ''WindowArea'', 32.76),
         (Incl 1.45, ''DoorArea'', 2.40)]),
     (''Mid-floor apartment'',
        [(Incl 21.59, ''LivingAreaPercent'', 65.04),
         (Incl (-0.75), ''WallArea'', 104.89),
         (Incl 0, ''FloorArea'', 0),
         (Incl 8.61, ''GroundFloorArea(sq m)'', 114.22),
         (Incl 0, ''RoofArea'', 0),
         (Incl 2.77, ''WindowArea'', 41.77),
         (Excl 0, ''DoorArea'', 1.91)]),
     (''Basement Dwellinge'',
        [(Incl (-4.70), ''LivingAreaPercent'', 81.83),
         (Incl 0.94, ''WallArea'', 148.01),
         (Incl (-12.76), ''FloorArea'', 141.22),
         (Incl 2.43, ''GroundFloorArea(sq m)'', 189.37),
         (Incl (-0.21), ''RoofArea'', 238.13),
         (Incl (-0.28), ''WindowArea'', 32.29),
         (Incl 0.29, ''DoorArea'', 2.23)])]"

text \<open>The first case whose literal equals the cell is run; a cell that matches none (or
  is no string) runs no check.\<close>

definition clauses_6_16 :: "row \<Rightarrow> bool result" where
  "clauses_6_16 data_row =
     bnd (getitem data_row ''DwellingTypeDescr'') (\<lambda>d.
       case d of
         Num x \<Rightarrow> Inr False
       | Str descr \<Rightarrow>
           (case map_of dwelling_cases descr of
              None \<Rightarrow> Inr False
            | Some checks \<Rightarrow> any_range_fails data_row checks))"

text \<open>Clauses 17 and 18: \<^verbatim>\<open>if not ((lo <= u <= hi) or u == 0)\<close> for door, window, roof
  and floor, and \<^verbatim>\<open>if not (lo <= u <= hi)\<close> for the wall.\<close>

definition uvalue_fails :: "row \<Rightarrow> real \<Rightarrow> string \<Rightarrow> real \<Rightarrow> bool result" where
  "uvalue_fails data_row lo k hi =
     bnd (get_num data_row k) (\<lambda>u. Inr (\<not> ((lo \<le> u \<and> u \<le> hi) \<or> u = 0)))"

definition wall_fails :: "row \<Rightarrow> real \<Rightarrow> real \<Rightarrow> bool result" where
  "wall_fails data_row lo hi =
     bnd (get_num data_row ''UValueWall'') (\<lambda>u. Inr (\<not> (lo \<le> u \<and> u \<le> hi)))"

definition era_block ::
  "row \<Rightarrow> real \<times> real \<Rightarrow> real \<times> real \<Rightarrow> real \<times> real \<Rightarrow> real \<times> real \<Rightarrow> real \<times> real
     \<Rightarrow> bool result" where
  "era_block data_row door_r window_r roof_r floor_r wall_r =
     bnd (uvalue_fails data_row (fst door_r) ''UvalueDoor'' (snd door_r)) (\<lambda>b1.
     bnd (uvalue_fails data_row (fst window_r) ''UValueWindow'' (snd window_r)) (\<lambda>b2.
     bnd (uvalue_fails data_row (fst roof_r) ''UValueRoof'' (snd roof_r)) (\<lambda>b3.
     bnd (uvalue_fails data_row (fst floor_r) ''UValueFloor'' (snd floor_r)) (\<lambda>b4.
     bnd (wall_fails data_row (fst wall_r) (snd wall_r)) (\<lambda>b5.
     Inr (b1 \<or> b2 \<or> b3 \<or> b4 \<or> b5))))))"

definition clauses_17_18 :: "row \<Rightarrow> bool result" where
  "clauses_17_18 data_row =
     bnd (getitem data_row ''ThermalEra'') (\<lambda>era.
       if era = Str ''Pre'' then
         era_block data_row (1.10, 3.90) (1.18, 5.70) (0.13, 1.99) (0.16, 1.14) (0.20, 2.90)
       else if era = Str ''Post'' then
         era_block data_row (0.83, 3.54) (0.77, 4.80) (0.11, 0.68) (0.11, 1.14) (0.14, 1.72)
       else Inr False)"

definition filter_by_criteria :: "real \<Rightarrow> row \<Rightarrow> bool result" where
  "filter_by_criteria now data_row =
     bnd (clause_1 now data_row) (\<lambda>e1.
     bnd (clause_2 data_row) (\<lambda>e2.
     bnd (clause_3 data_row) (\<lambda>e3.
     bnd (clause_4 data_row) (\<lambda>e4.
     bnd (clause_5 data_row) (\<lambda>e5.
     bnd (clauses_6_16 data_row) (\<lambda>e6.
     bnd (clauses_17_18 data_row) (\<lambda>e17.
     Inr (e1 \<or> e2 \<or> e3 \<or> e4 \<or> e5 \<or> e6 \<or> e17))))))))"


section \<open>The chunked run (\<^verbatim>\<open>process_csv_file\<close>)\<close>

text \<open>
  A CSV file, and a pandas DataFrame read from it, is a header of column names and the rows
  of cells under it. The row handed to the functions above is the Series of one line: the
  cells labelled by the columns. Files are named by their path strings.
\<close>

record csv =
  columns :: "string list"
  cells :: "val list list"

type_synonym files = "string \<Rightarrow> csv option"

definition series :: "string list \<Rightarrow> val list \<Rightarrow> row" where
  "series cols vs = zip cols vs"

text \<open>\<^verbatim>\<open>pd.read_csv(..., chunksize = n)\<close> yields the lines in order, \<open>n\<close> at a time; a file
  with a header and no line yields one empty frame.\<close>

function chunks_of :: "nat \<Rightarrow> 'a list \<Rightarrow> 'a list list" where
  "chunks_of n xs = (if n = 0 \<or> xs = [] then [] else take n xs # chunks_of n (drop n xs))"
  by pat_completeness auto
termination
  by (relation "measure (\<lambda>(n, xs). length xs)") auto

declare chunks_of.simps [simp del]

definition read_csv :: "csv \<Rightarrow> nat \<Rightarrow> val list list list" where
  "read_csv f chunk_size = (if cells f = [] then [[]] else chunks_of chunk_size (cells f))"

text \<open>\<^verbatim>\<open>chunk.apply(cleaning_methodology, axis = 1)\<close>: the rows are cleaned in order and the
  first error ends the run; the new frame takes its columns from the cleaned rows. On an
  empty frame pandas returns a copy of the frame.\<close>

fun apply_rows :: "(row \<Rightarrow> row result) \<Rightarrow> row list \<Rightarrow> row list result" where
  "apply_rows f [] = Inr []"
| "apply_rows f (r # rest) =
     (case f r of
        Inl e \<Rightarrow> Inl e
      | Inr r' \<Rightarrow> (case apply_rows f rest of Inl e \<Rightarrow> Inl e | Inr rs \<Rightarrow> Inr (r' # rs)))"

definition apply_cleaning :: "csv \<Rightarrow> csv result" where
  "apply_cleaning chunk =
     (if cells chunk = [] then Inr chunk
      else bnd (apply_rows cleaning_methodology (map (series (columns chunk)) (cells chunk)))
             (\<lambda>rs. Inr \<lparr>columns = (case rs of [] \<Rightarrow> columns chunk | r # _ \<Rightarrow> map fst r),
                        cells = map (map snd) rs\<rparr>))"

text \<open>\<^verbatim>\<open>chunk.filter(items = [id for id in chunk.index if filter_by_criteria(chunk.loc[id])],
  axis = 0)\<close>: the lines for which \<^verbatim>\<open>filter_by_criteria\<close> returns True are the ones kept.\<close>

fun filter_rows :: "real \<Rightarrow> string list \<Rightarrow> val list list \<Rightarrow> val list list result" where
  "filter_rows now cols [] = Inr []"
| "filter_rows now cols (vs # rest) =
     (case filter_by_criteria now (series cols vs) of
        Inl e \<Rightarrow> Inl e
      | Inr b \<Rightarrow>
          (case filter_rows now cols rest of
             Inl e \<Rightarrow> Inl e
           | Inr kept \<Rightarrow> Inr (if b then vs # kept else kept)))"

definition filter_chunk :: "real \<Rightarrow> csv \<Rightarrow> csv result" where
  "filter_chunk now chunk =
     bnd (filter_rows now (columns chunk) (cells chunk))
       (\<lambda>kept. Inr (chunk\<lparr>cells := kept\<rparr>))"

text \<open>\<^verbatim>\<open>chunk.to_csv(path, mode = 'w' if first_write else 'a', header = first_write)\<close>.\<close>

definition to_csv :: "csv \<Rightarrow> string \<Rightarrow> bool \<Rightarrow> files \<Rightarrow> files" where
  "to_csv chunk path first_write fs =
     (if first_write then fs(path \<mapsto> chunk)
      else (case fs path of
              None \<Rightarrow> fs(path \<mapsto> \<lparr>columns = [], cells = cells chunk\<rparr>)
            | Some old \<Rightarrow> fs(path \<mapsto> old\<lparr>cells := cells old @ cells chunk\<rparr>)))"

text \<open>The state of a run: the error that ended it (if any), the files, and how many chunks
  were read from the input.\<close>

record run =
  raised :: "error option"
  disk :: files
  chunks_read :: nat

fun process_chunks ::
  "real \<Rightarrow> string \<Rightarrow> string list \<Rightarrow> val list list list \<Rightarrow> bool \<Rightarrow> run \<Rightarrow> run" where
  "process_chunks now output_csv_file cols [] first_write st = st"
| "process_chunks now output_csv_file cols (c # rest) first_write st =
     (case bnd (apply_cleaning \<lparr>columns = cols, cells = c\<rparr>) (filter_chunk now) of
        Inl e \<Rightarrow> st\<lparr>raised := Some e, chunks_read := chunks_read st + 1\<rparr>
      | Inr chunk \<Rightarrow>
          process_chunks now output_csv_file cols rest False
            (st\<lparr>disk := to_csv chunk output_csv_file first_write (disk st),
                chunks_read := chunks_read st + 1\<rparr>))"

definition process_csv_file :: "real \<Rightarrow> string \<Rightarrow> string \<Rightarrow> int \<Rightarrow> files \<Rightarrow> run" where
  "process_csv_file now input_csv_file output_csv_file chunk_size fs =
     (if \<not> endswith input_csv_file ''.csv'' \<or> \<not> endswith output_csv_file ''.csv''
      then \<lparr>raised = Some FileAccessError, disk = fs, chunks_read = 0\<rparr>
      else if input_csv_file = output_csv_file
      then \<lparr>raised = Some FileAccessError, disk = fs, chunks_read = 0\<rparr>
      else if chunk_size < 1
      then \<lparr>raised = Some ValueError, disk = fs, chunks_read = 0\<rparr>
      else (case fs input_csv_file of
              None \<Rightarrow> \<lparr>raised = Some FileNotFoundError, disk = fs, chunks_read = 0\<rparr>
            | Some f \<Rightarrow>
                if columns f = []
                then \<lparr>raised = Some EmptyDataError, disk = fs, chunks_read = 0\<rparr>
                else process_chunks now output_csv_file (columns f)
                       (read_csv f (nat chunk_size)) True
                       \<lparr>raised = None, disk = fs, chunks_read = 0\<rparr>))"


section \<open>Reference definitions and sample data\<close>

text \<open>The age bands as the documentation lists them: the inclusive upper year of each
  band, and K above 2009.\<close>

definition spec_age_band :: "real \<Rightarrow> string" where
  "spec_age_band y =
     (if y \<le> 1899 then ''A'' else if y \<le> 1929 then ''B'' else if y \<le> 1949 then ''C''
      else if y \<le> 1966 then ''D'' else if y \<le> 1977 then ''E'' else if y \<le> 1982 then ''F''
      else if y \<le> 1993 then ''G'' else if y \<le> 1999 then ''H'' else if y \<le> 2004 then ''I''
      else if y \<le> 2009 then ''J'' else ''K'')"

text \<open>A survey line of a detached house built in 1950, with the column names of the
  dataset that the script reads.\<close>

definition sample_columns :: "string list" where
  "sample_columns =
     [''Year_of_Construction'', ''TypeofRating'', ''DwellingTypeDescr'', ''NoStoreys'',
      ''GroundFloorHeight'', ''FirstFloorHeight'', ''SecondFloorHeight'', ''ThirdFloorHeight'',
      ''GroundFloorArea(sq m)'', ''WallArea'', ''FloorArea'', ''RoofArea'', ''WindowArea'',
      ''DoorArea'', ''LivingAreaPercent'', ''HSMainSystemEfficiency'', ''WHMainSystemEff'',
      ''UvalueDoor'', ''UValueWindow'', ''UValueRoof'', ''UValueFloor'', ''UValueWall'',
      ''FirstWallType_Description'', ''FirstWallDescription'']"

definition sample_cells :: "val list" where
  "sample_cells =
     [Num 1950, Str ''Final '', Str ''Detached house'', Num 3,
      Num 2.5, Num 2.5, Num 0, Num 0,
      Num 100, Num 100, Num 100, Num 100, Num 20,
      Num 2, Num 20, Num 90, Num 90,
      Num 3, Num 3, Num 0.5, Num 0.5, Num 2.10,
      Str ''Stone'', Str ''free text'']"

definition sample_row :: row where
  "sample_row = series sample_columns sample_cells"

text \<open>The default replacements as two lookup tables: the corrected wall U-value by
  (age band, first wall type, current wall U-value), and the corrected roof U-value by
  (age band, current roof U-value).\<close>

definition wall_defaults :: "((string \<times> string \<times> real) \<times> real) list" where
  "wall_defaults =
    [((''A'', ''Unknown'', 2.10), 2.69),
     ((''A'', ''Stone'', 2.10), 2.90),
     ((''A'', ''325mm Solid Brick'', 1.64), 1.55),
     ((''B'', ''Unknown'', 2.10), 1.75),
     ((''B'', ''Stone'', 2.10), 3.28),
     ((''B'', ''225mm Solid brick'', 2.10), 1.75),
     ((''B'', ''325mm Solid Brick'', 1.64), 1.55),
     ((''C'', ''Unknown'', 2.10), 2.12),
     ((''C'', ''225mm Solid brick'', 2.10), 1.75),
     ((''C'', ''300mm Cavity'', 1.78), 1.20),
     ((''C'', ''Solid Mass Concrete'', 2.20), 2.12),
     ((''D'', ''Unknown'', 2.10), 2.69),
     ((''D'', ''300mm Cavity'', 1.78), 1.85),
     ((''D'', ''Solid Mass Concrete'', 2.20), 2.12),
     ((''D'', ''Concrete Hollow Block'', 2.40), 2.69),
     ((''E'', ''Unknown'', 2.10), 2.14),
     ((''E'', ''300mm Cavity'', 1.78), 1.54),
     ((''E'', ''Concrete Hollow Block'', 2.40), 2.14),
     ((''F'', ''Unknown'', 1.10), 1.83),
     ((''F'', ''300mm Cavity'', 1.10), 1.43),
     ((''F'', ''300mm Filled Cavity'', 0.60), 0.54),
     ((''F'', ''Concrete Hollow Block'', 1.10), 1.83),
     ((''G'', ''Unknown'', 0.60), 1.35),
     ((''G'', ''300mm Cavity'', 0.60), 1.35),
     ((''G'', ''300mm Filled Cavity'', 0.60), 0.54),
     ((''G'', ''Concrete Hollow Block'', 0.60), 1.72),
     ((''H'', ''Unknown'', 0.55), 0.39),
     ((''H'', ''300mm Filled Cavity'', 0.55), 0.39),
     ((''H'', ''Concrete Hollow Block'', 0.55), 0.54),
     ((''H'', ''Timber Frame'', 0.55), 0.40),
     ((''I'', ''Unknown'', 0.55), 0.28),
     ((''I'', ''300mm Filled Cavity'', 0.55), 0.29),
     ((''I'', ''Timber Frame'', 0.55), 0.35),
     ((''J'', ''Unknown'', 0.37), 0.27),
     ((''J'', ''300mm Filled Cavity'', 0.37), 0.27),
     ((''J'', ''Timber Frame'', 0.37), 0.30),
     ((''K'', ''Unknown'', 0.27), 0.27),
     ((''K'', ''300mm Filled Cavity'', 0.27), 0.21),
     ((''K'', ''Timber Frame'', 0.27), 0.27)]"

definition roof_defaults :: "((string \<times> real) \<times> real) list" where
  "roof_defaults =
    [((''A'', 2.30), 0.71), ((''B'', 2.30), 0.71), ((''C'', 2.30), 0.71), ((''D'', 2.30), 0.71),
     ((''E'', 2.30), 0.71), ((''F'', 0.49), 0.43), ((''G'', 0.49), 0.43), ((''H'', 0.40), 0.28),
     ((''I'', 0.36), 0.28), ((''J'', 0.25), 0.21), ((''K'', 0.25), 0.21)]"

definition replace_if_listed :: "string \<Rightarrow> real option \<Rightarrow> row \<Rightarrow> row" where
  "replace_if_listed k entry data_row =
     (case entry of None \<Rightarrow> data_row | Some v \<Rightarrow> setitem k (Num v) data_row)"


text \<open>Rows used to run the functions on concrete data.\<close>

definition pre_row :: row where
  "pre_row = setitem ''UValueWall'' (Num 0) (setitem ''ThermalEra'' (Str ''Pre'') sample_row)"

definition stone_row :: row where
  "stone_row = [(''AgeBand'', Str ''A''), (''UValueWall'', Num 2.10),
                (''FirstWallType_Description'', Str ''Stone''), (''UValueRoof'', Num 0.5)]"

definition brick_row :: row where
  "brick_row = [(''AgeBand'', Str ''A''), (''UValueWall'', Num 2.10),
                (''FirstWallType_Description'', Str ''Brick''), (''UValueRoof'', Num 0.5)]"

definition sample_files :: files where
  "sample_files = [''in.csv'' \<mapsto> \<lparr>columns = sample_columns, cells = [sample_cells]\<rparr>]"

text \<open>What a run that ends without error leaves in the output file, said without chunks.
  A line of the input has an outcome: the flag returned by \<^verbatim>\<open>filter_by_criteria\<close> on the
  cleaned row, and the cells of the cleaned row. The lines kept are those whose flag is True,
  in the order of the input. The header is the header of the input without the dropped
  columns, followed by the four derived columns that the input does not have already.\<close>

definition rectangular :: "csv \<Rightarrow> bool" where
  "rectangular f = list_all (\<lambda>vs. length vs = length (columns f)) (cells f)"

definition line_outcome :: "real \<Rightarrow> string list \<Rightarrow> val list \<Rightarrow> (bool \<times> val list) result" where
  "line_outcome now cols vs =
     bnd (cleaning_methodology (series cols vs)) (\<lambda>r.
     bnd (filter_by_criteria now r) (\<lambda>b. Inr (b, map snd r)))"

definition kept_cells :: "real \<Rightarrow> string list \<Rightarrow> val list list \<Rightarrow> val list list" where
  "kept_cells now cols lines =
     concat (map (\<lambda>vs. case line_outcome now cols vs of
                          Inl e \<Rightarrow> []
                        | Inr p \<Rightarrow> if fst p then [snd p] else []) lines)"

definition add_label :: "string \<Rightarrow> string list \<Rightarrow> string list" where
  "add_label k ks = (if k \<in> set ks then ks else ks @ [k])"

definition cleaned_columns :: "string list \<Rightarrow> string list" where
  "cleaned_columns cols =
     add_label ''Volume'' (add_label ''GlazingPercent'' (add_label ''ThermalEra''
       (add_label ''AgeBand''
          (filter (\<lambda>c. c \<notin> set ([''FirstWallDescription'', ''SecondWallDescription'',
                                    ''ThirdWallDescription'']
                                   @ filter (\<lambda>col. startswith col ''Unnamed:'') cols)) cols))))"

definition expected_output :: "real \<Rightarrow> csv \<Rightarrow> csv" where
  "expected_output now f =
     (if cells f = [] then \<lparr>columns = columns f, cells = []\<rparr>
      else \<lparr>columns = cleaned_columns (columns f),
            cells = kept_cells now (columns f) (cells f)\<rparr>)"

text \<open>More sample data: a row whose rating is not one of the three allowed and that has a
  column named Final; a basement dwelling with a wall area of 1000; a file of two lines
  with a column named Final, the sample line and the same line with a ground-floor height
  of 1 metre; and the sample file with that second line added.\<close>

definition mislabelled_row :: row where
  "mislabelled_row =
     series (sample_columns @ [''Final'']) (sample_cells[1 := Str ''Rejected''] @ [Num 1])"

definition basement_row :: row where
  "basement_row =
     setitem ''WallArea'' (Num 1000)
       (setitem ''DwellingTypeDescr'' (Str ''Basement Dwelling'') sample_row)"

definition passing_cells :: "val list" where
  "passing_cells = sample_cells @ [Num 1]"

definition low_ceiling_cells :: "val list" where
  "low_ceiling_cells = sample_cells[4 := Num 1] @ [Num 1]"

definition inverted_files :: files where
  "inverted_files =
     [''in.csv'' \<mapsto> \<lparr>columns = sample_columns @ [''Final''],
                        cells = [passing_cells, low_ceiling_cells]\<rparr>]"


section \<open>Basic facts\<close>

lemma bnd_Inl: "bnd (Inl e) f = Inl e"
  by (simp add: bnd_def)

lemma bnd_Inr: "bnd (Inr x) f = f x"
  by (simp add: bnd_def)

lemma bnd_eq_Inr: "(bnd m f = Inr y) = (\<exists>x. m = Inr x \<and> f x = Inr y)"
  by (cases m) (simp_all add: bnd_def)

lemma getitem_Some: "map_of data_row k = Some v \<Longrightarrow> getitem data_row k = Inr v"
  by (simp add: getitem_def)

lemma get_num_Num: "map_of data_row k = Some (Num x) \<Longrightarrow> get_num data_row k = Inr x"
  by (simp add: get_num_def getitem_def bnd_def as_num_def)

lemma map_of_setitem:
  "map_of (setitem k v data_row) k' = (if k' = k then Some v else map_of data_row k')"
  by (induction data_row) auto

lemma getitem_setitem:
  "getitem (setitem k v data_row) k' = (if k' = k then Inr v else getitem data_row k')"
  by (simp add: getitem_def map_of_setitem)

lemmas sample_defs = sample_row_def sample_columns_def sample_cells_def series_def

lemmas row_defs = get_num_def getitem_def as_num_def bnd_def

section \<open>Age bands\<close>

lemma upt_11: "[0..<11] = [0,1,2,3,4,5,6,7,8,9,10::nat]"
  by code_simp

lemma range_bins: "[0 ..< length bins - 1] = [0,1,2,3,4,5,6,7,8,9,10]"
  using upt_11 by (simp add: bins_def)

lemma year_cases:
  fixes y :: real
  obtains "y \<le> 1899" | "1899 < y" "y \<le> 1929" | "1929 < y" "y \<le> 1949"
  | "1949 < y" "y \<le> 1966" | "1966 < y" "y \<le> 1977" | "1977 < y" "y \<le> 1982"
  | "1982 < y" "y \<le> 1993" | "1993 < y" "y \<le> 1999" | "1999 < y" "y \<le> 2004"
  | "2004 < y" "y \<le> 2009" | "2009 < y"
  by linarith

lemma age_band_loop_eq:
  assumes "map_of data_row ''Year_of_Construction'' = Some (Num y)"
  shows "age_band_loop [0 ..< length bins - 1] data_row
           = Inr (setitem ''AgeBand'' (Str (spec_age_band y)) data_row)"
proof -
  have g: "get_num (setitem ''AgeBand'' v data_row) ''Year_of_Construction'' = Inr y" for v
    using assms by (simp add: get_num_Num map_of_setitem)
  note g0 = get_num_Num[OF assms]
  show ?thesis
    unfolding range_bins
    by (cases y rule: year_cases)
       (simp_all add: g0 g in_bin_def bins_def construction_period_def spec_age_band_def)
qed

lemma one_bin: "length (filter (in_bin y) [0 ..< length bins - 1]) = 1"
  unfolding range_bins
  by (cases y rule: year_cases) (simp_all add: in_bin_def bins_def)

lemma add_desired_columns_age_band:
  assumes "map_of data_row ''Year_of_Construction'' = Some (Num y)"
    and "add_desired_columns data_row = Inr r"
  shows "map_of r ''AgeBand'' = Some (Str (spec_age_band y))"
  using assms(2) unfolding add_desired_columns_def age_band_loop_eq[OF assms(1)]
  by (auto simp: bnd_def map_of_setitem split: sum.splits)

text \<open>
  Claim C4. For every real construction year the loop of \<^verbatim>\<open>add_desired_columns\<close> stores
  exactly one age band: exactly one of the eleven intervals \<open>(bins[i], bins[i+1]]\<close> holds
  the year, and the band stored is the one of the documented table (inclusive upper years
  1899 for A, 1929 for B, 1949 for C, 1966 for D, 1977 for E, 1982 for F, 1993 for G, 1999
  for H, 2004 for I, 2009 for J, and K above; every year up to 1899 is in A). The row
  returned by \<^verbatim>\<open>add_desired_columns\<close> carries that band.
\<close>

theorem age_band_exactly_one:
  assumes "map_of data_row ''Year_of_Construction'' = Some (Num y)"
  shows "age_band_loop [0 ..< length bins - 1] data_row
           = Inr (setitem ''AgeBand'' (Str (spec_age_band y)) data_row)
       \<and> length (filter (in_bin y) [0 ..< length bins - 1]) = 1
       \<and> (\<forall>r. add_desired_columns data_row = Inr r
              \<longrightarrow> map_of r ''AgeBand'' = Some (Str (spec_age_band y)))"
  using age_band_loop_eq[OF assms] one_bin add_desired_columns_age_band[OF assms] by blast

theorem age_band_exactly_one_witness:
  "map_of sample_row ''Year_of_Construction'' = Some (Num 1950)
   \<and> age_band_loop [0 ..< length bins - 1] sample_row
       = Inr (setitem ''AgeBand'' (Str ''D'') sample_row)
   \<and> length (filter (in_bin 1950) [0 ..< length bins - 1]) = 1
   \<and> spec_age_band 1899 = ''A'' \<and> spec_age_band 1900 = ''B''
   \<and> spec_age_band 1977 = ''E'' \<and> spec_age_band 1978 = ''F''"
proof -
  have h: "map_of sample_row ''Year_of_Construction'' = Some (Num 1950)"
    by (simp add: sample_defs)
  show ?thesis
    using h age_band_exactly_one[OF h] by (simp add: spec_age_band_def)
qed

section \<open>Glazing percentage\<close>

lemma glazing_percent_no_zero_division: "glazing_percent data_row \<noteq> Inl ZeroDivisionError"
proof -
  have "py_truediv win (Num x) \<noteq> Inl ZeroDivisionError" if "x > 0" for win x
    using that by (cases win) simp_all
  then show ?thesis
    by (auto simp: glazing_percent_def get_num_def getitem_def bnd_def as_num_def
             split: option.splits val.splits sum.splits)
qed

lemma age_band_loop_other_keys:
  "age_band_loop idx data_row = Inr r \<Longrightarrow> k \<noteq> ''AgeBand'' \<Longrightarrow> map_of r k = map_of data_row k"
proof (induction idx arbitrary: data_row)
  case Nil
  then show ?case by simp
next
  case (Cons i idx)
  from Cons.prems(1) obtain y where
    y: "get_num data_row ''Year_of_Construction'' = Inr y"
    and rest: "age_band_loop idx
                 (if in_bin y i
                  then setitem ''AgeBand'' (Str (construction_period ! i)) data_row
                  else data_row) = Inr r"
    by (auto split: sum.splits)
  from Cons.IH[OF rest Cons.prems(2)] Cons.prems(2) show ?case
    by (simp add: map_of_setitem split: if_splits)
qed

lemma add_desired_columns_glazing:
  assumes "add_desired_columns data_row = Inr r"
    and "map_of data_row ''WallArea'' = Some (Num wall)"
    and "map_of data_row ''WindowArea'' = Some (Num win)"
  shows "map_of r ''GlazingPercent'' = Some (Num (if 0 < wall then win / wall else 0))"
proof -
  from assms(1) obtain r1 era g v where
    r1: "age_band_loop [0 ..< length bins - 1] data_row = Inr r1"
    and g: "glazing_percent (setitem ''ThermalEra'' era r1) = Inr g"
    and r: "r = setitem ''Volume'' v
                  (setitem ''GlazingPercent'' g (setitem ''ThermalEra'' era r1))"
    unfolding add_desired_columns_def bnd_eq_Inr by auto
  have "map_of r1 ''WallArea'' = Some (Num wall)" "map_of r1 ''WindowArea'' = Some (Num win)"
    using age_band_loop_other_keys[OF r1] assms(2,3) by simp_all
  then have "glazing_percent (setitem ''ThermalEra'' era r1)
               = Inr (Num (if 0 < wall then win / wall else 0))"
    by (simp add: glazing_percent_def get_num_Num getitem_Some map_of_setitem bnd_Inr)
  with g have "g = Num (if 0 < wall then win / wall else 0)" by simp
  then show ?thesis by (simp add: r map_of_setitem)
qed

text \<open>
  Claim C8. The glazing percentage is defined for every row with numeric areas: it is the
  window area divided by the wall area when the wall area is strictly positive, and 0 when
  the wall area is 0 or negative (then the window area is not even read). The division is
  only reached with a positive divisor, so \<^verbatim>\<open>glazing_percent\<close> never ends in a
  division-by-zero error, whatever the row holds. The row returned by
  \<^verbatim>\<open>add_desired_columns\<close> carries that value.
\<close>

theorem glazing_percent_total:
  "glazing_percent data_row \<noteq> Inl ZeroDivisionError
   \<and> (map_of data_row ''WallArea'' = Some (Num wall) \<longrightarrow>
        (wall \<le> 0 \<longrightarrow> glazing_percent data_row = Inr (Num 0))
      \<and> (map_of data_row ''WindowArea'' = Some (Num win) \<longrightarrow>
           glazing_percent data_row = Inr (Num (if 0 < wall then win / wall else 0))
         \<and> (\<forall>r. add_desired_columns data_row = Inr r \<longrightarrow>
               map_of r ''GlazingPercent'' = Some (Num (if 0 < wall then win / wall else 0)))))"
  using glazing_percent_no_zero_division add_desired_columns_glazing
  by (auto simp: glazing_percent_def get_num_Num getitem_Some bnd_Inr)

theorem glazing_percent_total_witness:
  "glazing_percent sample_row = Inr (Num (20 / 100))
   \<and> glazing_percent (setitem ''WallArea'' (Num 0) sample_row) = Inr (Num 0)
   \<and> glazing_percent (setitem ''WallArea'' (Num (- 5)) sample_row) = Inr (Num 0)
   \<and> glazing_percent (setitem ''WallArea'' (Num 0) sample_row) \<noteq> Inl ZeroDivisionError"
proof -
  have h: "map_of sample_row ''WallArea'' = Some (Num 100)"
    "map_of sample_row ''WindowArea'' = Some (Num 20)"
    by (simp_all add: sample_defs)
  have h0: "map_of (setitem ''WallArea'' (Num x) sample_row) ''WallArea'' = Some (Num x)" for x
    by (simp add: map_of_setitem)
  show ?thesis
    using glazing_percent_total[of sample_row 100 20] h
      glazing_percent_total[of "setitem ''WallArea'' (Num 0) sample_row" 0 0] h0[of 0]
      glazing_percent_total[of "setitem ''WallArea'' (Num (- 5)) sample_row" "- 5" 0] h0[of "- 5"]
    by simp
qed

section \<open>Storey count\<close>

text \<open>
  Claim C7. A row whose \<^verbatim>\<open>NoStoreys\<close> is below 4 gets \<^verbatim>\<open>NoStoreys\<close> replaced by 1 plus
  the number of the three upper-floor heights (first, second, third) that are strictly
  positive; a row whose \<^verbatim>\<open>NoStoreys\<close> is 4 or more is returned unchanged.
\<close>

theorem storey_correction:
  assumes "map_of data_row ''NoStoreys'' = Some (Num n)"
  shows "(4 \<le> n \<longrightarrow> correct_column_data data_row = Inr data_row)
       \<and> (n < 4 \<and> map_of data_row ''FirstFloorHeight'' = Some (Num h1)
              \<and> map_of data_row ''SecondFloorHeight'' = Some (Num h2)
              \<and> map_of data_row ''ThirdFloorHeight'' = Some (Num h3) \<longrightarrow>
          correct_column_data data_row
            = Inr (setitem ''NoStoreys''
                     (Num (1 + real (length (filter (\<lambda>h. 0 < h) [h1, h2, h3])))) data_row))"
  using assms by (simp add: correct_column_data_def get_num_Num bnd_Inr)

theorem storey_correction_witness:
  "correct_column_data sample_row = Inr (setitem ''NoStoreys'' (Num 2) sample_row)
   \<and> correct_column_data (setitem ''NoStoreys'' (Num 5) sample_row)
       = Inr (setitem ''NoStoreys'' (Num 5) sample_row)"
proof -
  have h: "map_of sample_row ''NoStoreys'' = Some (Num 3)"
    "map_of sample_row ''FirstFloorHeight'' = Some (Num 2.5)"
    "map_of sample_row ''SecondFloorHeight'' = Some (Num 0)"
    "map_of sample_row ''ThirdFloorHeight'' = Some (Num 0)"
    by (simp_all add: sample_defs)
  have h5: "map_of (setitem ''NoStoreys'' (Num 5) sample_row) ''NoStoreys'' = Some (Num 5)"
    by (simp add: map_of_setitem)
  show ?thesis
    using storey_correction[OF h(1), of "2.5" 0 0] h(2,3,4) storey_correction[OF h5, of 0 0 0]
    by simp
qed

section \<open>Default replacement\<close>

lemma find_and_replace_lookup:
  assumes "map_of data_row ''AgeBand'' = Some (Str a)"
    and "map_of data_row ''UValueWall'' = Some (Num w)"
    and "map_of data_row ''FirstWallType_Description'' = Some (Str d)"
    and "map_of data_row ''UValueRoof'' = Some (Num r)"
  shows "find_and_replace data_row =
           Inr (replace_if_listed ''UValueRoof'' (map_of roof_defaults (a, r))
                 (replace_if_listed ''UValueWall'' (map_of wall_defaults (a, d, w)) data_row))"
proof -
  have g: "getitem data_row ''UValueWall'' = Inr (Num w)"
     "getitem data_row ''FirstWallType_Description'' = Inr (Str d)"
     "getitem data_row ''UValueRoof'' = Inr (Num r)"
     "getitem data_row ''AgeBand'' = Inr (Str a)"
    using assms by (simp_all add: getitem_Some)
  consider "a = ''A''" | "a = ''B''" | "a = ''C''" | "a = ''D''" | "a = ''E''" | "a = ''F''"
    | "a = ''G''" | "a = ''H''" | "a = ''I''" | "a = ''J''" | "a = ''K''"
    | "a \<notin> {''A'', ''B'', ''C'', ''D'', ''E'', ''F'', ''G'', ''H'', ''I'', ''J'', ''K''}"
    by blast
  then show ?thesis
    by cases
      (simp_all add: find_and_replace_def age_band_block_def wall_if_def roof_if_def g bnd_Inr
        getitem_setitem wall_defaults_def roof_defaults_def replace_if_listed_def)
qed

text \<open>
  Claim C6. On a row that carries an age band, a wall U-value, a first wall type and a roof
  U-value, \<^verbatim>\<open>find_and_replace\<close> replaces the wall U-value only when (age band, wall
  type, current wall U-value) is an entry of the wall table, and, independently, the roof
  U-value only when (age band, current roof U-value) is an entry of the roof table; the
  lookups are on the values the row came with. A row with no entry in either table is
  returned unchanged. In age band A a wall U-value of 2.10 with wall type Stone becomes
  2.90, and with wall type Brick it stays 2.10.
\<close>

theorem default_replacement_exact_match:
  assumes "map_of data_row ''AgeBand'' = Some (Str a)"
    and "map_of data_row ''UValueWall'' = Some (Num w)"
    and "map_of data_row ''FirstWallType_Description'' = Some (Str d)"
    and "map_of data_row ''UValueRoof'' = Some (Num r)"
  shows "find_and_replace data_row =
           Inr (replace_if_listed ''UValueRoof'' (map_of roof_defaults (a, r))
                 (replace_if_listed ''UValueWall'' (map_of wall_defaults (a, d, w)) data_row))
       \<and> (map_of wall_defaults (a, d, w) = None \<and> map_of roof_defaults (a, r) = None
            \<longrightarrow> find_and_replace data_row = Inr data_row)
       \<and> (a = ''A'' \<and> w = 2.10 \<and> d = ''Stone''
            \<longrightarrow> (\<exists>r'. find_and_replace data_row = Inr r'
                      \<and> map_of r' ''UValueWall'' = Some (Num 2.90)))
       \<and> (a = ''A'' \<and> w = 2.10 \<and> d = ''Brick''
            \<longrightarrow> (\<exists>r'. find_and_replace data_row = Inr r'
                      \<and> map_of r' ''UValueWall'' = Some (Num 2.10)))"
proof -
  note eq = find_and_replace_lookup[OF assms]
  have stone: "map_of wall_defaults (''A'', ''Stone'', 2.10) = Some 2.90"
    by (simp add: wall_defaults_def)
  have brick: "map_of wall_defaults (''A'', ''Brick'', 2.10) = None"
    by (simp add: wall_defaults_def)
  show ?thesis
  proof (intro conjI impI)
    show "find_and_replace data_row =
           Inr (replace_if_listed ''UValueRoof'' (map_of roof_defaults (a, r))
                 (replace_if_listed ''UValueWall'' (map_of wall_defaults (a, d, w)) data_row))"
      by (rule eq)
  next
    assume "map_of wall_defaults (a, d, w) = None \<and> map_of roof_defaults (a, r) = None"
    then show "find_and_replace data_row = Inr data_row"
      by (simp add: eq replace_if_listed_def)
  next
    assume h: "a = ''A'' \<and> w = 2.10 \<and> d = ''Stone''"
    then have a: "a = ''A''" and w: "w = 2.10" and d: "d = ''Stone''" by blast+
    have l: "map_of wall_defaults (a, d, w) = Some 2.90"
      unfolding a w d by (rule stone)
    show "\<exists>r'. find_and_replace data_row = Inr r' \<and> map_of r' ''UValueWall'' = Some (Num 2.90)"
      by (simp add: eq l replace_if_listed_def map_of_setitem split: option.splits)
  next
    assume h: "a = ''A'' \<and> w = 2.10 \<and> d = ''Brick''"
    then have a: "a = ''A''" and w: "w = 2.10" and d: "d = ''Brick''" by blast+
    have l: "map_of wall_defaults (a, d, w) = None"
      unfolding a w d by (rule brick)
    have "map_of data_row ''UValueWall'' = Some (Num 2.10)"
      using assms(2) unfolding w .
    then show "\<exists>r'. find_and_replace data_row = Inr r' \<and> map_of r' ''UValueWall'' = Some (Num 2.10)"
      by (simp add: eq l replace_if_listed_def map_of_setitem split: option.splits)
  qed
qed

theorem default_replacement_exact_match_witness:
  "find_and_replace stone_row
     = Inr [(''AgeBand'', Str ''A''), (''UValueWall'', Num 2.90),
            (''FirstWallType_Description'', Str ''Stone''), (''UValueRoof'', Num 0.5)]
   \<and> find_and_replace brick_row = Inr brick_row"
proof -
  have s: "map_of stone_row ''AgeBand'' = Some (Str ''A'')"
    "map_of stone_row ''UValueWall'' = Some (Num 2.10)"
    "map_of stone_row ''FirstWallType_Description'' = Some (Str ''Stone'')"
    "map_of stone_row ''UValueRoof'' = Some (Num 0.5)"
    by (simp_all add: stone_row_def)
  have b: "map_of brick_row ''AgeBand'' = Some (Str ''A'')"
    "map_of brick_row ''UValueWall'' = Some (Num 2.10)"
    "map_of brick_row ''FirstWallType_Description'' = Some (Str ''Brick'')"
    "map_of brick_row ''UValueRoof'' = Some (Num 0.5)"
    by (simp_all add: brick_row_def)
  have t: "map_of wall_defaults (''A'', ''Stone'', 2.10) = Some 2.90"
    "map_of wall_defaults (''A'', ''Brick'', 2.10) = None"
    "map_of roof_defaults (''A'', 0.5) = None"
    by (simp_all add: wall_defaults_def roof_defaults_def)
  have "find_and_replace stone_row = Inr (setitem ''UValueWall'' (Num 2.90) stone_row)"
    using default_replacement_exact_match[OF s, unfolded t]
    by (simp add: replace_if_listed_def)
  moreover have "find_and_replace brick_row = Inr brick_row"
    using default_replacement_exact_match[OF b, unfolded t]
    by (simp add: replace_if_listed_def)
  ultimately show ?thesis
    by (simp add: stone_row_def)
qed

section \<open>U-values of the thermal era\<close>

lemma pre_wall_flag:
  assumes "map_of data_row ''ThermalEra'' = Some (Str ''Pre'')"
    and "map_of data_row ''UValueWall'' = Some (Num w)"
    and "\<not> (0.20 \<le> w \<and> w \<le> 2.90)"
    and "clauses_17_18 data_row = Inr e"
  shows e
  using assms
  by (auto simp: clauses_17_18_def era_block_def wall_fails_def getitem_Some get_num_Num
        bnd_Inr bnd_eq_Inr)

text \<open>
  Claim C5. On a row of thermal era Pre, a wall U-value outside \<open>[0.20, 2.90]\<close> is always
  flagged: whatever the other cells hold, \<^verbatim>\<open>filter_by_criteria\<close> never returns False
  (include) for it, and a wall U-value of 0 is such a value. With numeric U-values the
  era clauses fire exactly when the door, window, roof or floor U-value is neither 0 nor in
  its Pre range, or the wall U-value is not in \<open>[0.20, 2.90]\<close>: 0 is exempt for the four
  others and not for the wall.
\<close>

theorem pre_era_wall_uvalue:
  assumes "map_of data_row ''ThermalEra'' = Some (Str ''Pre'')"
    and "map_of data_row ''UValueWall'' = Some (Num w)"
  shows "(\<not> (0.20 \<le> w \<and> w \<le> 2.90) \<longrightarrow> filter_by_criteria now data_row \<noteq> Inr False)
    \<and> (map_of data_row ''UvalueDoor'' = Some (Num d) \<and>
       map_of data_row ''UValueWindow'' = Some (Num wi) \<and>
       map_of data_row ''UValueRoof'' = Some (Num r) \<and>
       map_of data_row ''UValueFloor'' = Some (Num f) \<longrightarrow>
       clauses_17_18 data_row =
         Inr (\<not> ((1.10 \<le> d \<and> d \<le> 3.90) \<or> d = 0) \<or>
              \<not> ((1.18 \<le> wi \<and> wi \<le> 5.70) \<or> wi = 0) \<or>
              \<not> ((0.13 \<le> r \<and> r \<le> 1.99) \<or> r = 0) \<or>
              \<not> ((0.16 \<le> f \<and> f \<le> 1.14) \<or> f = 0) \<or>
              \<not> (0.20 \<le> w \<and> w \<le> 2.90)))"
proof (intro conjI impI)
  assume out: "\<not> (0.20 \<le> w \<and> w \<le> 2.90)"
  show "filter_by_criteria now data_row \<noteq> Inr False"
  proof
    assume "filter_by_criteria now data_row = Inr False"
    then obtain e where "clauses_17_18 data_row = Inr e" "\<not> e"
      by (auto simp: filter_by_criteria_def bnd_eq_Inr)
    with pre_wall_flag[OF assms out] show False by blast
  qed
next
  assume "map_of data_row ''UvalueDoor'' = Some (Num d) \<and>
       map_of data_row ''UValueWindow'' = Some (Num wi) \<and>
       map_of data_row ''UValueRoof'' = Some (Num r) \<and>
       map_of data_row ''UValueFloor'' = Some (Num f)"
  then show "clauses_17_18 data_row =
         Inr (\<not> ((1.10 \<le> d \<and> d \<le> 3.90) \<or> d = 0) \<or>
              \<not> ((1.18 \<le> wi \<and> wi \<le> 5.70) \<or> wi = 0) \<or>
              \<not> ((0.13 \<le> r \<and> r \<le> 1.99) \<or> r = 0) \<or>
              \<not> ((0.16 \<le> f \<and> f \<le> 1.14) \<or> f = 0) \<or>
              \<not> (0.20 \<le> w \<and> w \<le> 2.90))"
    using assms
    by (simp add: clauses_17_18_def era_block_def wall_fails_def uvalue_fails_def getitem_Some
          get_num_Num bnd_Inr)
qed

theorem pre_era_wall_uvalue_witness:
  "map_of pre_row ''ThermalEra'' = Some (Str ''Pre'')
   \<and> map_of pre_row ''UValueWall'' = Some (Num 0)
   \<and> filter_by_criteria 2024 pre_row \<noteq> Inr False
   \<and> clauses_17_18 pre_row = Inr True
   \<and> clauses_17_18 (setitem ''UValueWall'' (Num 1) (setitem ''UvalueDoor'' (Num 0) pre_row))
       = Inr False"
proof -
  have h: "map_of pre_row ''ThermalEra'' = Some (Str ''Pre'')"
    "map_of pre_row ''UValueWall'' = Some (Num 0)"
    "map_of pre_row ''UvalueDoor'' = Some (Num 3)"
    "map_of pre_row ''UValueWindow'' = Some (Num 3)"
    "map_of pre_row ''UValueRoof'' = Some (Num 0.5)"
    "map_of pre_row ''UValueFloor'' = Some (Num 0.5)"
    by (simp_all add: pre_row_def map_of_setitem sample_defs)
  let ?ok = "setitem ''UValueWall'' (Num 1) (setitem ''UvalueDoor'' (Num 0) pre_row)"
  have k: "map_of ?ok ''ThermalEra'' = Some (Str ''Pre'')"
    "map_of ?ok ''UValueWall'' = Some (Num 1)"
    "map_of ?ok ''UvalueDoor'' = Some (Num 0)"
    "map_of ?ok ''UValueWindow'' = Some (Num 3)"
    "map_of ?ok ''UValueRoof'' = Some (Num 0.5)"
    "map_of ?ok ''UValueFloor'' = Some (Num 0.5)"
    using h by (simp_all add: map_of_setitem)
  show ?thesis
    using h pre_era_wall_uvalue[OF h(1,2), of 2024 3 3 "0.5" "0.5"]
      k pre_era_wall_uvalue[OF k(1,2), of 2024 0 3 "0.5" "0.5"]
    by simp
qed

section \<open>The configuration check\<close>

text \<open>No function that works on a row or a chunk raises \<^verbatim>\<open>FileAccessError\<close>.\<close>

lemma bnd_not_fae:
  "m \<noteq> Inl FileAccessError \<Longrightarrow> (\<And>x. f x \<noteq> Inl FileAccessError) \<Longrightarrow> bnd m f \<noteq> Inl FileAccessError"
  by (cases m) (simp_all add: bnd_def)

lemma getitem_not_fae: "getitem r k \<noteq> Inl FileAccessError"
  by (simp add: getitem_def split: option.splits)

lemma get_num_not_fae: "get_num r k \<noteq> Inl FileAccessError"
  by (auto simp: get_num_def as_num_def getitem_def bnd_def split: option.splits val.splits)

lemma py_add_not_fae: "py_add a b \<noteq> Inl FileAccessError"
  by (cases "(a, b)" rule: py_add.cases) simp_all

lemma py_mul_not_fae: "py_mul a b \<noteq> Inl FileAccessError"
  by (cases "(a, b)" rule: py_mul.cases) simp_all

lemma py_truediv_not_fae: "py_truediv a b \<noteq> Inl FileAccessError"
  by (cases "(a, b)" rule: py_truediv.cases) simp_all

lemmas prim_not_fae = getitem_not_fae get_num_not_fae py_add_not_fae py_mul_not_fae py_truediv_not_fae

lemma age_band_loop_not_fae: "age_band_loop is r \<noteq> Inl FileAccessError"
  by (induction "is" arbitrary: r) (auto split: sum.splits simp: get_num_not_fae)

lemma add_desired_columns_not_fae: "add_desired_columns r \<noteq> Inl FileAccessError"
  unfolding add_desired_columns_def thermal_era_def glazing_percent_def volume_def
  by (intro bnd_not_fae prim_not_fae age_band_loop_not_fae) (simp_all add: prim_not_fae bnd_not_fae)

lemma count_positive_not_fae: "count_positive r ks \<noteq> Inl FileAccessError"
  by (induction ks) (auto split: sum.splits simp: get_num_not_fae)

lemma correct_column_data_not_fae: "correct_column_data r \<noteq> Inl FileAccessError"
  unfolding correct_column_data_def
  by (intro bnd_not_fae prim_not_fae)
     (simp del: count_positive.simps add: bnd_not_fae count_positive_not_fae)

lemma wall_if_not_fae: "wall_if c d v r \<noteq> Inl FileAccessError"
  unfolding wall_if_def
  by (intro bnd_not_fae prim_not_fae) (simp add: bnd_not_fae prim_not_fae)

lemma roof_if_not_fae: "roof_if c v r \<noteq> Inl FileAccessError"
  unfolding roof_if_def
  by (intro bnd_not_fae prim_not_fae) simp

lemma run_block_not_fae:
  "(\<And>s r. s \<in> set stmts \<Longrightarrow> s r \<noteq> Inl FileAccessError) \<Longrightarrow> run_block stmts r \<noteq> Inl FileAccessError"
  by (induction stmts arbitrary: r) (auto split: sum.splits)

lemma age_band_block_not_fae: "s \<in> set (age_band_block band) \<Longrightarrow> s r \<noteq> Inl FileAccessError"
  by (auto simp: age_band_block_def wall_if_not_fae roof_if_not_fae split: if_splits)

lemma run_age_band_block_not_fae: "run_block (age_band_block band) r \<noteq> Inl FileAccessError"
  by (rule run_block_not_fae) (rule age_band_block_not_fae)

lemma find_and_replace_not_fae: "find_and_replace r \<noteq> Inl FileAccessError"
  unfolding find_and_replace_def
  by (intro bnd_not_fae prim_not_fae) (simp add: run_age_band_block_not_fae split: val.splits)

lemma cleaning_methodology_not_fae: "cleaning_methodology r \<noteq> Inl FileAccessError"
  unfolding cleaning_methodology_def
  by (intro bnd_not_fae add_desired_columns_not_fae correct_column_data_not_fae
        find_and_replace_not_fae)

lemma any_range_fails_not_fae: "any_range_fails r cs \<noteq> Inl FileAccessError"
proof (induction cs)
  case Nil
  show ?case by simp
next
  case (Cons c cs)
  obtain lo k hi where c: "c = (lo, k, hi)" by (cases c) auto
  have "range_fails r c \<noteq> Inl FileAccessError"
    unfolding c range_fails.simps by (intro bnd_not_fae prim_not_fae) simp
  with Cons show ?case by (auto split: sum.splits)
qed

lemma clauses_17_18_not_fae: "clauses_17_18 r \<noteq> Inl FileAccessError"
proof -
  have u: "\<And>lo k hi. uvalue_fails r lo k hi \<noteq> Inl FileAccessError"
    unfolding uvalue_fails_def by (intro bnd_not_fae prim_not_fae) simp
  have w: "\<And>lo hi. wall_fails r lo hi \<noteq> Inl FileAccessError"
    unfolding wall_fails_def by (intro bnd_not_fae prim_not_fae) simp
  have e: "\<And>a b c d e. era_block r a b c d e \<noteq> Inl FileAccessError"
    unfolding era_block_def by (intro bnd_not_fae u w) simp
  show ?thesis
    unfolding clauses_17_18_def by (intro bnd_not_fae prim_not_fae) (simp add: e)
qed

lemma filter_by_criteria_not_fae: "filter_by_criteria now r \<noteq> Inl FileAccessError"
proof -
  have c1: "clause_1 now r \<noteq> Inl FileAccessError"
    unfolding clause_1_def by (intro bnd_not_fae prim_not_fae) simp
  have c2: "clause_2 r \<noteq> Inl FileAccessError"
    unfolding clause_2_def by (intro bnd_not_fae prim_not_fae) simp
  have c3: "clause_3 r \<noteq> Inl FileAccessError"
    by (simp add: clause_3_def)
  have c4: "clause_4 r \<noteq> Inl FileAccessError"
    unfolding clause_4_def by (intro bnd_not_fae prim_not_fae) simp
  have c5: "clause_5 r \<noteq> Inl FileAccessError"
    unfolding clause_5_def by (intro bnd_not_fae prim_not_fae) simp
  have c6: "clauses_6_16 r \<noteq> Inl FileAccessError"
    unfolding clauses_6_16_def
    by (intro bnd_not_fae prim_not_fae)
       (simp add: any_range_fails_not_fae split: val.splits option.splits)
  show ?thesis
    unfolding filter_by_criteria_def
    by (intro bnd_not_fae c1 c2 c3 c4 c5 c6 clauses_17_18_not_fae) simp
qed

lemma apply_rows_not_fae:
  "(\<And>r. f r \<noteq> Inl FileAccessError) \<Longrightarrow> apply_rows f rs \<noteq> Inl FileAccessError"
  by (induction rs) (auto split: sum.splits)

lemma filter_rows_not_fae: "filter_rows now cols vss \<noteq> Inl FileAccessError"
  by (induction vss) (auto split: sum.splits simp: filter_by_criteria_not_fae)

lemma chunk_not_fae:
  "bnd (apply_cleaning chunk) (filter_chunk now) \<noteq> Inl FileAccessError"
proof -
  have a: "apply_cleaning chunk \<noteq> Inl FileAccessError"
  proof (cases "cells chunk = []")
    case True
    then show ?thesis by (simp add: apply_cleaning_def)
  next
    case False
    have "bnd (apply_rows cleaning_methodology (map (series (columns chunk)) (cells chunk)))
            (\<lambda>rs. Inr \<lparr>columns = (case rs of [] \<Rightarrow> columns chunk | r # _ \<Rightarrow> map fst r),
                       cells = map (map snd) rs\<rparr>) \<noteq> Inl FileAccessError"
      by (intro bnd_not_fae apply_rows_not_fae cleaning_methodology_not_fae) simp
    with False show ?thesis by (simp add: apply_cleaning_def)
  qed
  have f: "\<And>c. filter_chunk now c \<noteq> Inl FileAccessError"
    unfolding filter_chunk_def by (intro bnd_not_fae filter_rows_not_fae) simp
  show ?thesis by (intro bnd_not_fae a f)
qed

lemma process_chunks_not_fae:
  "raised st \<noteq> Some FileAccessError \<Longrightarrow>
   raised (process_chunks now out cols cs fw st) \<noteq> Some FileAccessError"
proof (induction cs arbitrary: fw st)
  case Nil
  then show ?case by simp
next
  case (Cons c cs)
  show ?case
  proof (cases "bnd (apply_cleaning \<lparr>columns = cols, cells = c\<rparr>) (filter_chunk now)")
    case (Inl e)
    with chunk_not_fae[of "\<lparr>columns = cols, cells = c\<rparr>" now] have "e \<noteq> FileAccessError" by auto
    with Inl show ?thesis by simp
  next
    case (Inr chunk)
    then show ?thesis using Cons.IH Cons.prems by simp
  qed
qed

text \<open>
  Claim C10. \<^verbatim>\<open>process_csv_file\<close> ends with \<^verbatim>\<open>FileAccessError\<close> exactly when the input
  and output paths are equal or one of them does not end in \<^verbatim>\<open>.csv\<close>. In that case the
  error is raised before anything is read or written: no chunk has been read and the files
  are as they were. In every other case the run does not end with that error.
\<close>

theorem configuration_error:
  "(raised (process_csv_file now input_csv_file output_csv_file chunk_size fs) = Some FileAccessError)
     = (input_csv_file = output_csv_file \<or> \<not> endswith input_csv_file ''.csv''
          \<or> \<not> endswith output_csv_file ''.csv'')
   \<and> (raised (process_csv_file now input_csv_file output_csv_file chunk_size fs) = Some FileAccessError
        \<longrightarrow> disk (process_csv_file now input_csv_file output_csv_file chunk_size fs) = fs
          \<and> chunks_read (process_csv_file now input_csv_file output_csv_file chunk_size fs) = 0)"
proof -
  have "raised (process_chunks now output_csv_file cols cs True
                  \<lparr>raised = None, disk = fs, chunks_read = 0\<rparr>) \<noteq> Some FileAccessError" for cols cs
    by (rule process_chunks_not_fae) simp
  then show ?thesis
    by (auto simp: process_csv_file_def split: option.splits)
qed

theorem configuration_error_witness:
  "raised (process_csv_file 2024 ''in.csv'' ''in.csv'' 1000 sample_files) = Some FileAccessError
   \<and> disk (process_csv_file 2024 ''in.csv'' ''in.csv'' 1000 sample_files) = sample_files
   \<and> chunks_read (process_csv_file 2024 ''in.csv'' ''in.csv'' 1000 sample_files) = 0
   \<and> raised (process_csv_file 2024 ''in.csv'' ''out.txt'' 1000 sample_files) = Some FileAccessError
   \<and> raised (process_csv_file 2024 ''in.csv'' ''out.csv'' 1000 sample_files) \<noteq> Some FileAccessError"
  using configuration_error[of 2024 "''in.csv''" "''in.csv''" 1000 sample_files]
    configuration_error[of 2024 "''in.csv''" "''out.txt''" 1000 sample_files]
    configuration_error[of 2024 "''in.csv''" "''out.csv''" 1000 sample_files]
  by (simp add: endswith_def)

section \<open>The columns of a cleaned row\<close>

lemma labels_setitem: "map fst (setitem k v data_row) = add_label k (map fst data_row)"
  by (induction data_row) (auto simp: add_label_def)

lemma labels_setitem_present:
  "map_of data_row k = Some x \<Longrightarrow> map fst (setitem k v data_row) = map fst data_row"
  by (induction data_row) (auto split: if_splits)

lemma getitem_Inr_iff: "(getitem data_row k = Inr v) = (map_of data_row k = Some v)"
  by (simp add: getitem_def split: option.splits)

lemma get_num_Inr_iff: "(get_num data_row k = Inr x) = (map_of data_row k = Some (Num x))"
  by (auto simp: get_num_def getitem_def as_num_def bnd_def split: option.splits val.splits)

lemma labels_drop_unwanted_columns:
  "map fst (drop_unwanted_columns data_row)
     = filter (\<lambda>c. c \<notin> set ([''FirstWallDescription'', ''SecondWallDescription'',
                                ''ThirdWallDescription'']
                               @ filter (\<lambda>col. startswith col ''Unnamed:'') (map fst data_row)))
         (map fst data_row)"
  by (simp add: drop_unwanted_columns_def columns_to_drop_def filter_map comp_def)

lemma labels_add_desired_columns:
  assumes "add_desired_columns data_row = Inr r"
  shows "map fst r = add_label ''Volume'' (add_label ''GlazingPercent''
           (add_label ''ThermalEra'' (add_label ''AgeBand'' (map fst data_row))))"
proof -
  from assms obtain r1 era g v where
    r1: "age_band_loop [0 ..< length bins - 1] data_row = Inr r1"
    and r: "r = setitem ''Volume'' v
                  (setitem ''GlazingPercent'' g (setitem ''ThermalEra'' era r1))"
    unfolding add_desired_columns_def bnd_eq_Inr by auto
  from r1 obtain y where "get_num data_row ''Year_of_Construction'' = Inr y"
    unfolding range_bins by (auto split: sum.splits)
  then have "map_of data_row ''Year_of_Construction'' = Some (Num y)"
    by (simp add: get_num_Inr_iff)
  from age_band_loop_eq[OF this] r1
  have "r1 = setitem ''AgeBand'' (Str (spec_age_band y)) data_row" by simp
  then show ?thesis by (simp add: r labels_setitem)
qed

lemma labels_correct_column_data:
  "correct_column_data data_row = Inr r \<Longrightarrow> map fst r = map fst data_row"
  by (auto simp: correct_column_data_def bnd_eq_Inr get_num_Inr_iff labels_setitem_present
           split: if_splits)

lemma labels_wall_if: "wall_if c d v data_row = Inr r \<Longrightarrow> map fst r = map fst data_row"
  by (auto simp: wall_if_def bnd_eq_Inr getitem_Inr_iff labels_setitem_present split: if_splits)

lemma labels_roof_if: "roof_if c v data_row = Inr r \<Longrightarrow> map fst r = map fst data_row"
  by (auto simp: roof_if_def bnd_eq_Inr getitem_Inr_iff labels_setitem_present split: if_splits)

lemma labels_run_block:
  "(\<And>s r r'. s \<in> set stmts \<Longrightarrow> s r = Inr r' \<Longrightarrow> map fst r' = map fst r) \<Longrightarrow>
   run_block stmts data_row = Inr r \<Longrightarrow> map fst r = map fst data_row"
proof (induction stmts arbitrary: data_row)
  case Nil
  then show ?case by simp
next
  case (Cons s stmts)
  from Cons.prems(2) obtain r1 where s: "s data_row = Inr r1" and rest: "run_block stmts r1 = Inr r"
    by (auto split: sum.splits)
  have "map fst r1 = map fst data_row"
    using Cons.prems(1)[of s data_row r1] s by simp
  moreover have "map fst r = map fst r1"
  proof (rule Cons.IH[OF _ rest])
    fix t u u'
    assume "t \<in> set stmts" "t u = Inr u'"
    then show "map fst u' = map fst u"
      using Cons.prems(1)[of t u u'] by simp
  qed
  ultimately show ?case by simp
qed

lemma labels_age_band_block:
  "s \<in> set (age_band_block band) \<Longrightarrow> s r = Inr r' \<Longrightarrow> map fst r' = map fst r"
  by (auto simp: age_band_block_def split: if_splits dest: labels_wall_if labels_roof_if)

lemma labels_find_and_replace:
  "find_and_replace data_row = Inr r \<Longrightarrow> map fst r = map fst data_row"
proof -
  assume "find_and_replace data_row = Inr r"
  then obtain b where b: "(case b of Str band \<Rightarrow> run_block (age_band_block band) data_row
                             | Num x \<Rightarrow> Inr data_row) = Inr r"
    unfolding find_and_replace_def bnd_eq_Inr by auto
  show ?thesis
  proof (cases b)
    case (Num x)
    with b show ?thesis by simp
  next
    case (Str band)
    with b have "run_block (age_band_block band) data_row = Inr r" by simp
    then show ?thesis
      by (rule labels_run_block[rotated]) (rule labels_age_band_block)
  qed
qed

lemma labels_cleaning_methodology:
  assumes "cleaning_methodology data_row = Inr r"
  shows "map fst r = cleaned_columns (map fst data_row)"
proof -
  from assms obtain r1 r2 where
    a: "add_desired_columns (drop_unwanted_columns data_row) = Inr r1"
    and c: "correct_column_data r1 = Inr r2"
    and f: "find_and_replace r2 = Inr r"
    unfolding cleaning_methodology_def bnd_eq_Inr by auto
  show ?thesis
    using labels_add_desired_columns[OF a] labels_correct_column_data[OF c]
      labels_find_and_replace[OF f]
    by (simp add: cleaned_columns_def labels_drop_unwanted_columns)
qed

section \<open>Chunks\<close>

lemma concat_chunks_of: "0 < n \<Longrightarrow> concat (chunks_of n xs) = xs"
proof (induction n xs rule: chunks_of.induct)
  case (1 n xs)
  then show ?case by (subst chunks_of.simps) auto
qed

lemma chunks_of_nonempty: "c \<in> set (chunks_of n xs) \<Longrightarrow> c \<noteq> []"
proof (induction n xs rule: chunks_of.induct)
  case (1 n xs)
  from "1.prems" have ne: "\<not> (n = 0 \<or> xs = [])"
    by (subst (asm) chunks_of.simps) (auto split: if_splits)
  from "1.prems" have "c = take n xs \<or> c \<in> set (chunks_of n (drop n xs))"
    by (subst (asm) chunks_of.simps) (auto split: if_splits)
  then show ?case using ne "1.IH" by auto
qed

lemma set_chunks_of:
  assumes "c \<in> set (chunks_of n xs)"
  shows "set c \<subseteq> set xs"
proof (cases "n = 0")
  case True
  with assms show ?thesis by (subst (asm) chunks_of.simps) simp
next
  case False
  then have "concat (chunks_of n xs) = xs" by (simp add: concat_chunks_of)
  then have "set xs = (\<Union>c\<in>set (chunks_of n xs). set c)"
    by (metis set_concat)
  with assms show ?thesis by blast
qed

lemma chunks_of_Cons: "0 < n \<Longrightarrow> xs \<noteq> [] \<Longrightarrow> chunks_of n xs = take n xs # chunks_of n (drop n xs)"
  by (subst chunks_of.simps) simp

section \<open>One chunk\<close>

lemma kept_cells_Nil: "kept_cells now cols [] = []"
  by (simp add: kept_cells_def)

lemma kept_cells_append:
  "kept_cells now cols (a @ b) = kept_cells now cols a @ kept_cells now cols b"
  by (simp add: kept_cells_def)

lemma series_labels: "length vs = length cols \<Longrightarrow> map fst (series cols vs) = cols"
  by (simp add: series_def)

lemma series_of_row: "map fst r = cols \<Longrightarrow> series cols (map snd r) = r"
  by (auto simp: series_def zip_map_fst_snd)

lemma apply_rows_length: "apply_rows f xs = Inr rs \<Longrightarrow> length rs = length xs"
  by (induction xs arbitrary: rs) (auto split: sum.splits)

lemma apply_rows_fails:
  "apply_rows cleaning_methodology (map (series cols) c) = Inl e \<Longrightarrow>
   \<exists>vs\<in>set c. isl (line_outcome now cols vs)"
  by (induction c) (auto split: sum.splits simp: line_outcome_def bnd_Inl)

lemma filter_cleaned_rows:
  assumes "apply_rows cleaning_methodology (map (series cols) c) = Inr rs"
    and "\<forall>vs\<in>set c. length vs = length cols"
  shows "(filter_rows now (cleaned_columns cols) (map (map snd) rs) = Inr kept)
           = ((\<forall>vs\<in>set c. \<not> isl (line_outcome now cols vs)) \<and> kept = kept_cells now cols c)"
  using assms
proof (induction c arbitrary: rs kept)
  case Nil
  then show ?case by (auto simp: kept_cells_def)
next
  case (Cons vs c)
  from Cons.prems(1) obtain r rs' where
    r: "cleaning_methodology (series cols vs) = Inr r"
    and rs': "apply_rows cleaning_methodology (map (series cols) c) = Inr rs'"
    and rs: "rs = r # rs'"
    by (auto split: sum.splits)
  have "map fst r = cleaned_columns cols"
    using labels_cleaning_methodology[OF r] Cons.prems(2) by (simp add: series_labels)
  then have zipped: "series (cleaned_columns cols) (map snd r) = r"
    by (rule series_of_row)
  have lo: "line_outcome now cols vs = bnd (filter_by_criteria now r) (\<lambda>b. Inr (b, map snd r))"
    by (simp add: line_outcome_def r bnd_Inr)
  have kc: "kept_cells now cols (vs # c)
              = (case line_outcome now cols vs of Inl e \<Rightarrow> []
                 | Inr p \<Rightarrow> if fst p then [snd p] else []) @ kept_cells now cols c"
    by (simp add: kept_cells_def)
  note IH = Cons.IH[OF rs', of _]
  show ?case
  proof (cases "filter_by_criteria now r")
    case (Inl e)
    then show ?thesis by (simp add: rs zipped lo bnd_Inl)
  next
    case (Inr b)
    show ?thesis
    proof (cases "filter_rows now (cleaned_columns cols) (map (map snd) rs')")
      case (Inl e)
      with IH[of "kept_cells now cols c"] Cons.prems(2)
      have "\<not> (\<forall>vs\<in>set c. \<not> isl (line_outcome now cols vs))" by auto
      with Inl Inr show ?thesis by (auto simp: rs zipped)
    next
      case (Inr kept')
      with IH[of kept'] Cons.prems(2)
      have ok: "\<forall>vs\<in>set c. \<not> isl (line_outcome now cols vs)"
        and k': "kept' = kept_cells now cols c" by auto
      from \<open>filter_by_criteria now r = Inr b\<close> Inr ok k' show ?thesis
        by (auto simp: rs zipped lo kc bnd_Inr)
    qed
  qed
qed

lemma chunk_result:
  assumes "c \<noteq> []" and "\<forall>vs\<in>set c. length vs = length cols"
  shows "(bnd (apply_cleaning \<lparr>columns = cols, cells = c\<rparr>) (filter_chunk now) = Inr x)
           = ((\<forall>vs\<in>set c. \<not> isl (line_outcome now cols vs))
              \<and> x = \<lparr>columns = cleaned_columns cols, cells = kept_cells now cols c\<rparr>)"
proof (cases "apply_rows cleaning_methodology (map (series cols) c)")
  case (Inl e)
  from apply_rows_fails[OF Inl] have "\<not> (\<forall>vs\<in>set c. \<not> isl (line_outcome now cols vs))"
    by blast
  with Inl assms(1) show ?thesis by (simp add: apply_cleaning_def bnd_Inl)
next
  case (Inr rs)
  from apply_rows_length[OF Inr] assms(1) obtain r rs' where rs: "rs = r # rs'"
    by (cases rs) auto
  have "cleaning_methodology (series cols (hd c)) = Inr r"
    using Inr assms(1) rs by (cases c) (auto split: sum.splits)
  moreover have "length (hd c) = length cols" using assms by (cases c) auto
  ultimately have lab: "map fst r = cleaned_columns cols"
    using labels_cleaning_methodology by (fastforce simp: series_labels)
  have "bnd (apply_cleaning \<lparr>columns = cols, cells = c\<rparr>) (filter_chunk now)
          = bnd (filter_rows now (cleaned_columns cols) (map (map snd) rs))
              (\<lambda>kept. Inr \<lparr>columns = cleaned_columns cols, cells = kept\<rparr>)"
    using assms(1) by (simp add: apply_cleaning_def Inr bnd_Inr filter_chunk_def rs lab)
  then show ?thesis
    using filter_cleaned_rows[OF Inr assms(2), of now]
    by (auto simp: bnd_eq_Inr)
qed

section \<open>The whole run\<close>

lemma process_chunks_append:
  assumes "\<forall>c\<in>set cs. c \<noteq> [] \<and> (\<forall>vs\<in>set c. length vs = length cols)"
    and "\<forall>c\<in>set cs. \<forall>vs\<in>set c. \<not> isl (line_outcome now cols vs)"
    and "disk st out = Some old"
  shows "raised (process_chunks now out cols cs False st) = raised st
       \<and> disk (process_chunks now out cols cs False st)
           = (disk st)(out \<mapsto> old\<lparr>cells := cells old @ kept_cells now cols (concat cs)\<rparr>)
       \<and> chunks_read (process_chunks now out cols cs False st) = chunks_read st + length cs"
  using assms
proof (induction cs arbitrary: st old)
  case Nil
  then have "(disk st)(out \<mapsto> old) = disk st" by auto
  then show ?case by (simp add: kept_cells_Nil)
next
  case (Cons c cs)
  have c: "c \<noteq> []" "\<forall>vs\<in>set c. length vs = length cols"
    "\<forall>vs\<in>set c. \<not> isl (line_outcome now cols vs)"
    using Cons.prems by auto
  have P: "bnd (apply_cleaning \<lparr>columns = cols, cells = c\<rparr>) (filter_chunk now)
             = Inr \<lparr>columns = cleaned_columns cols, cells = kept_cells now cols c\<rparr>"
    using chunk_result[OF c(1,2), of now] c(3) by simp
  define old' where "old' = old\<lparr>cells := cells old @ kept_cells now cols c\<rparr>"
  define st' where "st' = st\<lparr>disk := (disk st)(out \<mapsto> old'), chunks_read := chunks_read st + 1\<rparr>"
  have step: "process_chunks now out cols (c # cs) False st
                = process_chunks now out cols cs False st'"
    using Cons.prems(3) by (simp add: P to_csv_def st'_def old'_def)
  have d: "disk st' out = Some old'" by (simp add: st'_def)
  have "raised (process_chunks now out cols cs False st') = raised st'
       \<and> disk (process_chunks now out cols cs False st')
           = (disk st')(out \<mapsto> old'\<lparr>cells := cells old' @ kept_cells now cols (concat cs)\<rparr>)
       \<and> chunks_read (process_chunks now out cols cs False st') = chunks_read st' + length cs"
    by (rule Cons.IH[OF _ _ d]) (use Cons.prems in auto)
  moreover have "raised st' = raised st" "chunks_read st' = chunks_read st + 1"
    "disk st' = (disk st)(out \<mapsto> old')"
    by (simp_all add: st'_def)
  moreover have "old'\<lparr>cells := cells old' @ kept_cells now cols (concat cs)\<rparr>
                   = old\<lparr>cells := cells old @ kept_cells now cols (concat (c # cs))\<rparr>"
    by (simp add: old'_def kept_cells_append)
  ultimately show ?case
    unfolding step by simp
qed

lemma process_chunks_first:
  assumes "\<forall>c\<in>set (c0 # cs). c \<noteq> [] \<and> (\<forall>vs\<in>set c. length vs = length cols)"
    and "\<forall>c\<in>set (c0 # cs). \<forall>vs\<in>set c. \<not> isl (line_outcome now cols vs)"
  shows "raised (process_chunks now out cols (c0 # cs) True st) = raised st
       \<and> disk (process_chunks now out cols (c0 # cs) True st)
           = (disk st)(out \<mapsto> \<lparr>columns = cleaned_columns cols,
                                  cells = kept_cells now cols (concat (c0 # cs))\<rparr>)"
proof -
  have c: "c0 \<noteq> []" "\<forall>vs\<in>set c0. length vs = length cols"
    "\<forall>vs\<in>set c0. \<not> isl (line_outcome now cols vs)"
    using assms by auto
  have P: "bnd (apply_cleaning \<lparr>columns = cols, cells = c0\<rparr>) (filter_chunk now)
             = Inr \<lparr>columns = cleaned_columns cols, cells = kept_cells now cols c0\<rparr>"
    using chunk_result[OF c(1,2), of now] c(3) by simp
  define old where "old = \<lparr>columns = cleaned_columns cols, cells = kept_cells now cols c0\<rparr>"
  define st' where "st' = st\<lparr>disk := (disk st)(out \<mapsto> old), chunks_read := chunks_read st + 1\<rparr>"
  have step: "process_chunks now out cols (c0 # cs) True st
                = process_chunks now out cols cs False st'"
    by (simp add: P to_csv_def st'_def old_def)
  have d: "disk st' out = Some old" by (simp add: st'_def)
  have "raised (process_chunks now out cols cs False st') = raised st'
       \<and> disk (process_chunks now out cols cs False st')
           = (disk st')(out \<mapsto> old\<lparr>cells := cells old @ kept_cells now cols (concat cs)\<rparr>)
       \<and> chunks_read (process_chunks now out cols cs False st') = chunks_read st' + length cs"
    by (rule process_chunks_append[OF _ _ d]) (use assms in auto)
  moreover have "raised st' = raised st" "disk st' = (disk st)(out \<mapsto> old)"
    by (simp_all add: st'_def)
  moreover have "old\<lparr>cells := cells old @ kept_cells now cols (concat cs)\<rparr>
                   = \<lparr>columns = cleaned_columns cols,
                      cells = kept_cells now cols (concat (c0 # cs))\<rparr>"
    by (simp add: old_def kept_cells_append)
  ultimately show ?thesis
    unfolding step by simp
qed

lemma process_chunks_fails:
  assumes "\<forall>c\<in>set cs. c \<noteq> [] \<and> (\<forall>vs\<in>set c. length vs = length cols)"
    and "\<exists>c\<in>set cs. \<exists>vs\<in>set c. isl (line_outcome now cols vs)"
  shows "raised (process_chunks now out cols cs fw st) \<noteq> None"
  using assms
proof (induction cs arbitrary: fw st)
  case Nil
  then show ?case by simp
next
  case (Cons c cs)
  have c: "c \<noteq> []" "\<forall>vs\<in>set c. length vs = length cols"
    using Cons.prems by auto
  show ?case
  proof (cases "bnd (apply_cleaning \<lparr>columns = cols, cells = c\<rparr>) (filter_chunk now)")
    case (Inl e)
    then show ?thesis by simp
  next
    case (Inr x)
    with chunk_result[OF c, of now x] have "\<forall>vs\<in>set c. \<not> isl (line_outcome now cols vs)"
      by simp
    with Cons.prems(2) have "\<exists>c\<in>set cs. \<exists>vs\<in>set c. isl (line_outcome now cols vs)"
      by auto
    with Cons.IH Cons.prems(1) Inr show ?thesis by simp
  qed
qed

lemma run_result:
  assumes "endswith input_csv_file ''.csv''" and "endswith output_csv_file ''.csv''"
    and "input_csv_file \<noteq> output_csv_file" and "1 \<le> chunk_size"
    and "fs input_csv_file = Some f" and "columns f \<noteq> []" and "rectangular f"
  shows "(raised (process_csv_file now input_csv_file output_csv_file chunk_size fs) = None)
           = (\<forall>vs\<in>set (cells f). \<not> isl (line_outcome now (columns f) vs))"
    and "raised (process_csv_file now input_csv_file output_csv_file chunk_size fs) = None \<Longrightarrow>
         disk (process_csv_file now input_csv_file output_csv_file chunk_size fs)
           = fs(output_csv_file \<mapsto> expected_output now f)"
proof -
  let ?st = "\<lparr>raised = None, disk = fs, chunks_read = 0\<rparr>"
  let ?run = "process_csv_file now input_csv_file output_csv_file chunk_size fs"
  have run: "?run = process_chunks now output_csv_file (columns f)
                      (read_csv f (nat chunk_size)) True ?st"
    using assms by (simp add: process_csv_file_def)
  have both: "((raised ?run = None)
           = (\<forall>vs\<in>set (cells f). \<not> isl (line_outcome now (columns f) vs)))
      \<and> (raised ?run = None \<longrightarrow> disk ?run = fs(output_csv_file \<mapsto> expected_output now f))"
  proof (cases "cells f = []")
    case True
    then show ?thesis
      by (simp add: run read_csv_def apply_cleaning_def filter_chunk_def bnd_Inr to_csv_def
            expected_output_def)
  next
    case False
    let ?cs = "chunks_of (nat chunk_size) (cells f)"
    have n: "0 < nat chunk_size" using assms(4) by simp
    have cs: "?cs = take (nat chunk_size) (cells f)
                      # chunks_of (nat chunk_size) (drop (nat chunk_size) (cells f))"
      using chunks_of_Cons[OF n False] .
    have cc: "concat ?cs = cells f" using concat_chunks_of[OF n] .
    have rect: "\<forall>vs\<in>set (cells f). length vs = length (columns f)"
      using assms(7) by (simp add: rectangular_def list_all_iff)
    have wf: "\<forall>c\<in>set ?cs. c \<noteq> [] \<and> (\<forall>vs\<in>set c. length vs = length (columns f))"
      using chunks_of_nonempty set_chunks_of rect by blast
    have run': "?run = process_chunks now output_csv_file (columns f) ?cs True ?st"
      using False by (simp add: run read_csv_def)
    show ?thesis
    proof (cases "\<forall>vs\<in>set (cells f). \<not> isl (line_outcome now (columns f) vs)")
      case True
      then have ok: "\<forall>c\<in>set ?cs. \<forall>vs\<in>set c. \<not> isl (line_outcome now (columns f) vs)"
        using set_chunks_of by blast
      have "raised ?run = raised ?st
          \<and> disk ?run = (disk ?st)(output_csv_file \<mapsto>
                         \<lparr>columns = cleaned_columns (columns f),
                          cells = kept_cells now (columns f) (concat ?cs)\<rparr>)"
        unfolding run' using wf ok unfolding cs by (rule process_chunks_first)
      then show ?thesis
        using True False by (simp add: cc expected_output_def)
    next
      case bad: False
      then have "\<exists>c\<in>set ?cs. \<exists>vs\<in>set c. isl (line_outcome now (columns f) vs)"
        using cc by (metis (no_types, lifting) UN_iff set_concat)
      from process_chunks_fails[OF wf this] have "raised ?run \<noteq> None"
        unfolding run' .
      with bad show ?thesis by blast
    qed
  qed
  from both show "(raised ?run = None)
           = (\<forall>vs\<in>set (cells f). \<not> isl (line_outcome now (columns f) vs))" by blast
  from both show "raised ?run = None \<Longrightarrow> disk ?run = fs(output_csv_file \<mapsto> expected_output now f)"
    by blast
qed

lemmas eval_defs =
  line_outcome_def cleaning_methodology_def drop_unwanted_columns_def columns_to_drop_def
  startswith_def add_desired_columns_def upt_11 in_bin_def bins_def construction_period_def
  thermal_era_def glazing_percent_def volume_def correct_column_data_def find_and_replace_def
  age_band_block_def wall_if_def roof_if_def get_num_def getitem_def as_num_def bnd_def
  filter_by_criteria_def clause_1_def clause_2_def clause_3_def clause_4_def clause_5_def
  clauses_6_16_def clauses_17_18_def era_block_def uvalue_fails_def wall_fails_def
  dwelling_cases_def contains_def series_def





section \<open>Where the code departs from its documentation\<close>

text \<open>
  Claim C1 (the code departs from it). \<^verbatim>\<open>filter_by_criteria\<close> returns True for a row to
  exclude, and \<^verbatim>\<open>process_csv_file\<close> keeps the lines for which it returns True. On a file
  of two lines, the first passing every clause (flag False, include) and the second with a
  ground-floor height of 1 metre (flag True, exclude), the run writes the second line only.
\<close>

theorem kept_lines_are_flagged_lines:
  "\<exists>included excluded.
     line_outcome 2024 (sample_columns @ [''Final'']) passing_cells = Inr (False, included)
   \<and> line_outcome 2024 (sample_columns @ [''Final'']) low_ceiling_cells = Inr (True, excluded)
   \<and> raised (process_csv_file 2024 ''in.csv'' ''out.csv'' 1000 inverted_files) = None
   \<and> map_option cells (disk (process_csv_file 2024 ''in.csv'' ''out.csv'' 1000 inverted_files)
                          ''out.csv'') = Some [excluded]"
proof -
  let ?cols = "sample_columns @ [''Final'']"
  let ?f = "\<lparr>columns = ?cols, cells = [passing_cells, low_ceiling_cells]\<rparr>"
  obtain included where i: "line_outcome 2024 ?cols passing_cells = Inr (False, included)"
    by (simp add: eval_defs sample_columns_def sample_cells_def passing_cells_def)
  obtain excluded where e: "line_outcome 2024 ?cols low_ceiling_cells = Inr (True, excluded)"
    by (simp add: eval_defs sample_columns_def sample_cells_def low_ceiling_cells_def)
  have f: "inverted_files ''in.csv'' = Some ?f"
    by (simp add: inverted_files_def)
  have rect: "rectangular ?f"
    by (simp add: rectangular_def sample_columns_def sample_cells_def passing_cells_def
          low_ceiling_cells_def)
  have ok: "\<forall>vs\<in>set (cells ?f). \<not> isl (line_outcome 2024 (columns ?f) vs)"
    using i e by simp
  note rr = run_result[of "''in.csv''" "''out.csv''" 1000 inverted_files ?f 2024]
  have cfg: "endswith ''in.csv'' ''.csv''" "endswith ''out.csv'' ''.csv''"
    "''in.csv'' \<noteq> ''out.csv''" "columns ?f \<noteq> []"
    by (simp_all add: endswith_def sample_columns_def)
  have none: "raised (process_csv_file 2024 ''in.csv'' ''out.csv'' 1000 inverted_files) = None"
    using rr(1)[OF cfg(1,2,3) _ f cfg(4) rect] ok by simp
  have "disk (process_csv_file 2024 ''in.csv'' ''out.csv'' 1000 inverted_files)
          = inverted_files(''out.csv'' \<mapsto> expected_output 2024 ?f)"
    using rr(2)[OF cfg(1,2,3) _ f cfg(4) rect none] by simp
  moreover have "cells (expected_output 2024 ?f) = [excluded]"
    by (simp add: expected_output_def kept_cells_def i e)
  ultimately show ?thesis
    using i e none by simp
qed

theorem kept_lines_are_flagged_lines_witness:
  "raised (process_csv_file 2024 ''in.csv'' ''out.csv'' 1000 inverted_files) = None
   \<and> (\<exists>out. map_option cells
               (disk (process_csv_file 2024 ''in.csv'' ''out.csv'' 1000 inverted_files)
                  ''out.csv'') = Some [out])"
  using kept_lines_are_flagged_lines by blast

text \<open>
  Claim C2 (the code departs from it). Clause 3 tests whether the row has a column named
  Final, Existing or Provisional; it never reads the rating cell. The sample row, whose
  rating is \<open>Final\<close>, is flagged by clause 3, and a row whose rating is \<open>Rejected\<close> but
  which has a column named Final is not.
\<close>

theorem rating_type_checked_on_column_names:
  "map_of sample_row ''TypeofRating'' = Some (Str ''Final '')
   \<and> clause_3 sample_row = Inr True
   \<and> map_of mislabelled_row ''TypeofRating'' = Some (Str ''Rejected'')
   \<and> clause_3 mislabelled_row = Inr False"
  by (simp add: clause_3_def contains_def mislabelled_row_def sample_defs)

text \<open>
  Claim C3 (the code departs from it). The last case of the dwelling types is spelled
  \<open>Basement Dwellinge\<close>, so a row of type \<open>Basement Dwelling\<close> matches no case: with a
  wall area of 1000 (the range of that case ends at 148.01) no range check fires, while the
  same row under the misspelled type is flagged.
\<close>

theorem basement_dwelling_has_no_case:
  "map_of basement_row ''DwellingTypeDescr'' = Some (Str ''Basement Dwelling'')
   \<and> map_of basement_row ''WallArea'' = Some (Num 1000)
   \<and> map_of dwelling_cases ''Basement Dwelling'' = None
   \<and> clauses_6_16 basement_row = Inr False
   \<and> clauses_6_16 (setitem ''DwellingTypeDescr'' (Str ''Basement Dwellinge'') basement_row)
       = Inr True"
  by (simp add: basement_row_def sample_defs clauses_6_16_def dwelling_cases_def
        get_num_def getitem_def as_num_def bnd_def)

end
